theory Spec2Isabelle
  imports Complex_Main "HOL-Library.Multiset"
begin

section \<open>The Lune/Simfoni CSV tool: a shallow embedding\<close>

text \<open>
  The development follows the latest iteration of the tool (the one with the retry loop and
  the chunked output) and the CSV utilities it loads its input with.

  Conventions of the embedding.
  \<^item> A \<open>Result<T, E>\<close> of \<open>ts-results-es\<close> is the sum type \<open>E + T\<close>: \<open>Err\<close> is \<open>Inl\<close>,
    \<open>Ok\<close> is \<open>Inr\<close>.
  \<^item> A JavaScript string is a \<open>string\<close>; the strings handled here are taken to be ASCII.
  \<^item> A JavaScript \<open>number\<close> that holds a finite value is a \<open>rat\<close>: the match scores come
    from JSON, which has neither NaN nor an infinity, and on finite doubles both the order
    and the sign of a difference agree with those of the rationals they denote.
  \<^item> Everything the tool obtains from outside (the file system, the CSV parser, the
    estimation service, the order in which concurrent tasks complete, the rendering of
    numbers as text) is a field of the record \<open>world\<close>.
\<close>

abbreviation Err :: "'e \<Rightarrow> 'e + 'a" where "Err \<equiv> Inl"
abbreviation Ok :: "'a \<Rightarrow> 'e + 'a" where "Ok \<equiv> Inr"

subsection \<open>String primitives\<close>

text \<open>\<open>String.prototype.trim\<close>, on ASCII: tab, line feed, vertical tab, form feed,
  carriage return and space are removed from both ends.\<close>

definition isWhiteSpace :: "char \<Rightarrow> bool" where
  "isWhiteSpace c \<longleftrightarrow> c \<in> set [CHR 0x09, CHR 0x0A, CHR 0x0B, CHR 0x0C, CHR 0x0D, CHR '' '']"

definition trim :: "string \<Rightarrow> string" where
  "trim s = rev (dropWhile isWhiteSpace (rev (dropWhile isWhiteSpace s)))"

text \<open>\<open>s.replace(/,/g, '')\<close>: every comma is deleted, every other character is kept.\<close>

fun replace_commas :: "string \<Rightarrow> string" where
  "replace_commas [] = []"
| "replace_commas (c # cs) = (if c = CHR '','' then replace_commas cs else c # replace_commas cs)"

subsection \<open>Input records\<close>

text \<open>
  A parsed CSV record is a JavaScript object: a list of properties. The parser gives every
  property a string value; \<open>NonStr t\<close> stands for a value of any other type, \<open>t\<close> being what
  \<open>typeof\<close> says of it.
\<close>

datatype propval = Str string | NonStr string

type_synonym record_obj = "(string \<times> propval) list"

text \<open>\<open>row[column].trim()\<close>: \<open>None\<close> is the \<open>TypeError\<close> raised when the property is missing
  or is not a string.\<close>

definition field_trim :: "record_obj \<Rightarrow> string \<Rightarrow> string option" where
  "field_trim row column =
     (case map_of row column of
        Some (Str s) \<Rightarrow> Some (trim s)
      | _ \<Rightarrow> None)"

text \<open>\<open>columns.map((column) => row[column].trim())\<close>: the first failing column raises.\<close>

fun fields_trim :: "record_obj \<Rightarrow> string list \<Rightarrow> string list option" where
  "fields_trim row [] = Some []"
| "fields_trim row (column # columns) =
     (case field_trim row column of
        None \<Rightarrow> None
      | Some v \<Rightarrow> (case fields_trim row columns of
                    None \<Rightarrow> None
                  | Some vs \<Rightarrow> Some (v # vs)))"

text \<open>The amount of a row: \<open>row[monetaryAmountColumn].trim().replace(/,/g, '')\<close>.\<close>

definition amount_of :: "record_obj \<Rightarrow> string \<Rightarrow> string option" where
  "amount_of row monetaryAmountColumn = map_option replace_commas (field_trim row monetaryAmountColumn)"

subsection \<open>Permutation generator\<close>

text \<open>A candidate; the category \<open>undefined\<close> is \<open>None\<close>.\<close>

record candidate =
  searchTerm :: string
  category :: "string option"

text \<open>The inner and the outer loop of \<open>searchCategoryPermutations\<close>, each pushing onto
  \<open>result\<close>.\<close>

fun push_categories :: "string \<Rightarrow> string option list \<Rightarrow> candidate list \<Rightarrow> candidate list" where
  "push_categories s [] result = result"
| "push_categories s (c # cs) result =
     push_categories s cs (result @ [\<lparr>searchTerm = s, category = c\<rparr>])"

fun push_searchTerms :: "string list \<Rightarrow> string option list \<Rightarrow> candidate list \<Rightarrow> candidate list" where
  "push_searchTerms [] categories result = result"
| "push_searchTerms (s # ss) categories result =
     push_searchTerms ss categories (push_categories s categories result)"

definition searchCategoryPermutations :: "string list \<Rightarrow> string option list \<Rightarrow> candidate list" where
  "searchCategoryPermutations searchTerms categories = push_searchTerms searchTerms categories []"

text \<open>The categories of a row in \<open>main\<close>: with no category column, the single category
  \<open>undefined\<close>.\<close>

definition categories_of :: "record_obj \<Rightarrow> string list \<Rightarrow> string option list option" where
  "categories_of row categoryColumnsArr =
     (if length categoryColumnsArr \<noteq> 0
      then map_option (map Some) (fields_trim row categoryColumnsArr)
      else Some [None])"

subsection \<open>Estimation request adapter\<close>

definition MAX_RETRIES :: nat where
  "MAX_RETRIES = 5"

text \<open>The request sent to the service: \<open>{value: {value, currency}, merchant: {searchTerm,
  countryCode, category?}}\<close>.\<close>

record request =
  value_value :: string
  value_currency :: string
  merchant_searchTerm :: string
  merchant_countryCode :: string
  merchant_category :: "string option"

text \<open>An error of the client: \<open>'statusCode' in error\<close> is \<open>statusCode error \<noteq> None\<close>.\<close>

record api_error =
  statusCode :: "nat option"
  description :: string

text \<open>
  A \<open>TransactionEmissionEstimate\<close>. \<open>NoMass\<close> is a response without the property \<open>mass\<close>.
  The source reads \<open>emissionFactor!\<close> and \<open>gasEmissions!\<close> of a response that has a mass,
  asserting that the service sends them (the type comes from the client library); the
  response type has them as plain fields. \<open>exchangeRate\<close> and \<open>searchTermMatchScore\<close> may be
  missing.
\<close>

record mass_estimate =
  mass_amount :: string
  emissionFactor_name :: string
  emissionFactor_source :: string
  emissionFactor_numeratorUnit :: string
  emissionFactor_denominatorUnit :: string
  emissionFactor_gasEmissions_co2E :: rat
  res_exchangeRate :: "rat option"
  searchTermMatchScore :: "rat option"
  res_id :: string

datatype estimate = NoMass | WithMass mass_estimate

text \<open>A score as the tool holds it: a number, \<open>null\<close> or \<open>undefined\<close>.\<close>

datatype score = Number rat | Null | Undefined

text \<open>The value of \<open>calculateEmissions\<close> on success.\<close>

record estimation =
  emissionsTCo2 :: string
  emissionFactorName :: string
  emissionFactorSource :: string
  emissionFactorIntensity :: string
  emissionFactorNumeratorUnit :: string
  emissionFactorDenominatorUnit :: string
  requestedCurrency :: string
  exchangeRate :: string
  score :: score
  dashboardUrl :: string

text \<open>What \<open>calculateEmissions\<close> does to the outside, in order: a call of
  \<open>luneClient.createTransactionEstimate\<close> or a \<open>sleepMs\<close>.\<close>

datatype event = CreateTransactionEstimate request | SleepMs nat

text \<open>The client, for one invocation of \<open>calculateEmissions\<close>: the answer to the request when
  the given number of calls have been made before.\<close>

type_synonym lune_client = "request \<Rightarrow> nat \<Rightarrow> api_error + estimate"

definition dashboardUrl_of :: "string \<Rightarrow> string" where
  "dashboardUrl_of estimateId =
     ''https://dashboard.lune.co/calculate-emissions/everyday-purchases/'' @ estimateId @ ''/results''"

text \<open>
  How the retry loop is left: by \<open>return Err(...)\<close>, or with the variable \<open>result\<close>
  (\<open>None\<close> is \<open>undefined\<close>: the loop condition failed before any call).
\<close>

datatype loop_exit = Return string | Result "estimate option"

function retry_loop :: "lune_client \<Rightarrow> request \<Rightarrow> nat \<Rightarrow> event list \<Rightarrow> loop_exit \<times> event list" where
  "retry_loop luneClient request retryCount trace =
     (if retryCount < MAX_RETRIES then
        (case luneClient request retryCount of
           Inl error \<Rightarrow>
             if statusCode error \<noteq> None
             then (Return (description error), trace @ [CreateTransactionEstimate request])
             else if retryCount < MAX_RETRIES - 1
             then retry_loop luneClient request (retryCount + 1)
                    (trace @ [CreateTransactionEstimate request, SleepMs 500])
             else (Return (description error), trace @ [CreateTransactionEstimate request])
         | Inr res \<Rightarrow> (Result (Some res), trace @ [CreateTransactionEstimate request]))
      else (Result None, trace))"
  by pat_completeness auto
termination
  by (relation "measure (\<lambda>(luneClient, request, retryCount, trace). MAX_RETRIES - retryCount)") auto

text \<open>The arguments of \<open>calculateEmissions\<close>.\<close>

record estimate_args =
  arg_searchTerm :: string
  arg_category :: "string option"
  arg_amount :: string
  arg_currency :: string
  arg_countryCode :: string

text \<open>\<open>...(category ? { category } : {})\<close>: an empty category is left out like a missing one.\<close>

definition request_of :: "estimate_args \<Rightarrow> request" where
  "request_of args =
     \<lparr>value_value = arg_amount args,
      value_currency = arg_currency args,
      merchant_searchTerm = arg_searchTerm args,
      merchant_countryCode = arg_countryCode args,
      merchant_category =
        (case arg_category args of
           None \<Rightarrow> None
         | Some c \<Rightarrow> if c = [] then None else Some c)\<rparr>"

text \<open>The part of \<open>calculateEmissions\<close> after the loop; \<open>bigToString\<close> is \<open>Big.prototype.toString\<close>,
  and a \<open>Big\<close> is a \<open>rat\<close>.\<close>

definition estimation_of :: "(rat \<Rightarrow> string) \<Rightarrow> string \<Rightarrow> estimate \<Rightarrow> estimation" where
  "estimation_of bigToString currency res =
     (case res of
        NoMass \<Rightarrow>
          \<lparr>emissionsTCo2 = [],
           emissionFactorName = [],
           emissionFactorSource = [],
           emissionFactorIntensity = [],
           emissionFactorNumeratorUnit = [],
           emissionFactorDenominatorUnit = [],
           requestedCurrency = currency,
           exchangeRate = [],
           score = Undefined,
           dashboardUrl = []\<rparr>
      | WithMass m \<Rightarrow>
          (let exchangeRate = (case res_exchangeRate m of None \<Rightarrow> 1 | Some r \<Rightarrow> r);
               emissionFactorIntensity = emissionFactor_gasEmissions_co2E m * exchangeRate
           in \<lparr>emissionsTCo2 = mass_amount m,
               emissionFactorName = emissionFactor_name m,
               emissionFactorSource = emissionFactor_source m,
               emissionFactorIntensity = bigToString emissionFactorIntensity,
               emissionFactorNumeratorUnit = emissionFactor_numeratorUnit m,
               emissionFactorDenominatorUnit = emissionFactor_denominatorUnit m,
               requestedCurrency = currency,
               exchangeRate = bigToString exchangeRate,
               score = (case searchTermMatchScore m of None \<Rightarrow> Undefined | Some x \<Rightarrow> Number x),
               dashboardUrl = dashboardUrl_of (res_id m)\<rparr>))"

text \<open>
  \<open>calculateEmissions\<close>: its value and what it did. The value \<open>None\<close> is the \<open>TypeError\<close> of
  \<open>result!.unwrap()\<close> on an undefined \<open>result\<close>.
\<close>

definition calculateEmissions ::
  "lune_client \<Rightarrow> (rat \<Rightarrow> string) \<Rightarrow> estimate_args \<Rightarrow> (string + estimation) option \<times> event list" where
  "calculateEmissions luneClient bigToString args =
     (case retry_loop luneClient (request_of args) 0 [] of
        (Return e, trace) \<Rightarrow> (Some (Err e), trace)
      | (Result None, trace) \<Rightarrow> (None, trace)
      | (Result (Some res), trace) \<Rightarrow>
          (Some (Ok (estimation_of bigToString (arg_currency args) res)), trace))"

text \<open>Vocabulary for what an invocation did: a failure without a status code, the trace of
  \<open>k\<close> failed attempts followed by one more call, the number of calls and the waits of a trace.\<close>

definition transient :: "api_error + estimate \<Rightarrow> bool" where
  "transient r = (case r of Inl error \<Rightarrow> statusCode error = None | Inr _ \<Rightarrow> False)"

definition attempts :: "request \<Rightarrow> nat \<Rightarrow> event list" where
  "attempts request k =
     concat (replicate k [CreateTransactionEstimate request, SleepMs 500]) @ [CreateTransactionEstimate request]"

fun call_count :: "event list \<Rightarrow> nat" where
  "call_count [] = 0"
| "call_count (CreateTransactionEstimate _ # es) = Suc (call_count es)"
| "call_count (SleepMs _ # es) = call_count es"

fun waits :: "event list \<Rightarrow> nat list" where
  "waits [] = []"
| "waits (CreateTransactionEstimate _ # es) = waits es"
| "waits (SleepMs ms # es) = ms # waits es"

subsection \<open>Row estimator\<close>

text \<open>An element of \<open>permutationsResults\<close>.\<close>

record permutation_result =
  name :: string
  emissions :: string
  source :: string
  url :: string
  searchTermUsed :: string
  categoryUsed :: string
  score :: score
  exchangeRate :: string
  emissionFactorNumeratorUnit :: string
  emissionFactorDenominatorUnit :: string
  emissionFactorIntensity :: string
  requestedCurrency :: string

text \<open>What a task pushes for its candidate, given the result of \<open>calculateEmissions\<close>.\<close>

definition pushed_result :: "candidate \<Rightarrow> string + estimation \<Rightarrow> permutation_result" where
  "pushed_result c result =
     (case result of
        Inl error \<Rightarrow>
          \<lparr>name = ''Error: '' @ error,
           emissions = [],
           source = [],
           url = [],
           searchTermUsed = [],
           categoryUsed = [],
           score = Null,
           exchangeRate = [],
           emissionFactorNumeratorUnit = [],
           emissionFactorDenominatorUnit = [],
           emissionFactorIntensity = [],
           requestedCurrency = []\<rparr>
      | Inr v \<Rightarrow>
          \<lparr>name = emissionFactorName v,
           emissions = emissionsTCo2 v,
           source = emissionFactorSource v,
           url = dashboardUrl v,
           searchTermUsed = searchTerm c,
           categoryUsed = (case category c of None \<Rightarrow> [] | Some s \<Rightarrow> s),
           score = estimation.score v,
           exchangeRate = estimation.exchangeRate v,
           emissionFactorNumeratorUnit = estimation.emissionFactorNumeratorUnit v,
           emissionFactorDenominatorUnit = estimation.emissionFactorDenominatorUnit v,
           emissionFactorIntensity = estimation.emissionFactorIntensity v,
           requestedCurrency = estimation.requestedCurrency v\<rparr>)"

text \<open>The task \<open>fn\<close> of one candidate: \<open>None\<close> if \<open>calculateEmissions\<close> raised, else what it
  pushes.\<close>

definition fn :: "lune_client \<Rightarrow> (rat \<Rightarrow> string) \<Rightarrow> string \<Rightarrow> string \<Rightarrow> string \<Rightarrow> candidate
    \<Rightarrow> permutation_result option" where
  "fn luneClient bigToString amount currency countryCode c =
     (case fst (calculateEmissions luneClient bigToString
                  \<lparr>arg_searchTerm = searchTerm c,
                   arg_category = category c,
                   arg_amount = amount,
                   arg_currency = currency,
                   arg_countryCode = countryCode\<rparr>) of
        None \<Rightarrow> None
      | Some result \<Rightarrow> Some (pushed_result c result))"

text \<open>
  The outside world. \<open>createTransactionEstimate w i j\<close> is the client as the task of
  candidate \<open>j\<close> of row \<open>i\<close> sees it. The tasks of a row run concurrently and each pushes when
  it is done: \<open>finishTime w i j\<close> is the instant at which task \<open>j\<close> of row \<open>i\<close> pushes, and
  pushes happen in the order of these instants. \<open>Big_toString\<close>, \<open>Number_toString\<close> and
  \<open>Err_toString\<close> render a \<open>Big\<close>, a number and an \<open>Err\<close> object as text.
\<close>

record world =
  readFile :: "string \<Rightarrow> string + string"
  parseCsv :: "string \<Rightarrow> string + record_obj list"
  createTransactionEstimate :: "nat \<Rightarrow> nat \<Rightarrow> lune_client"
  finishTime :: "nat \<Rightarrow> nat \<Rightarrow> nat"
  Big_toString :: "rat \<Rightarrow> string"
  Number_toString :: "rat \<Rightarrow> string"
  Err_toString :: "string \<Rightarrow> string"

definition completion_order :: "(nat \<Rightarrow> nat) \<Rightarrow> 'a list \<Rightarrow> 'a list" where
  "completion_order finish xs = map snd (sort_key (\<lambda>(j, x). finish j) (zip [0..<length xs] xs))"

text \<open>\<open>permutationsResults\<close> after \<open>await Promise.all(promises)\<close>; \<open>None\<close> if a task raised.\<close>

definition permutationsResults :: "world \<Rightarrow> nat \<Rightarrow> string \<Rightarrow> string \<Rightarrow> string \<Rightarrow> candidate list
    \<Rightarrow> permutation_result list option" where
  "permutationsResults w i amount currency countryCode searchPermutations =
     map_option (completion_order (finishTime w i))
       (those (map (\<lambda>(j, c). fn (createTransactionEstimate w i j) (Big_toString w) amount currency countryCode c)
                 (zip [0..<length searchPermutations] searchPermutations)))"

subsection \<open>Ranker and merger\<close>

definition noConfidenceResults :: "permutation_result list \<Rightarrow> permutation_result list" where
  "noConfidenceResults rs = filter (\<lambda>r. score r = Null \<or> score r = Undefined) rs"

definition withConfidenceResults :: "permutation_result list \<Rightarrow> permutation_result list" where
  "withConfidenceResults rs = filter (\<lambda>r. score r \<noteq> Null \<and> score r \<noteq> Undefined) rs"

text \<open>\<open>a.score! - b.score!\<close>. The comparator is only applied to results that carry a
  number; the value given to \<open>null\<close> and \<open>undefined\<close> here is never used.\<close>

fun score_number :: "score \<Rightarrow> rat" where
  "score_number (Number x) = x"
| "score_number Null = 0"
| "score_number Undefined = 0"

definition compareFn :: "permutation_result \<Rightarrow> permutation_result \<Rightarrow> rat" where
  "compareFn a b = score_number (score a) - score_number (score b)"

text \<open>\<open>Array.prototype.sort\<close> with a comparator: a stable sort, here by insertion. An element
  goes before the first one that it does not compare greater than.\<close>

fun insert_by :: "('a \<Rightarrow> 'a \<Rightarrow> rat) \<Rightarrow> 'a \<Rightarrow> 'a list \<Rightarrow> 'a list" where
  "insert_by cmp x [] = [x]"
| "insert_by cmp x (y # ys) = (if cmp x y \<le> 0 then x # y # ys else y # insert_by cmp x ys)"

fun array_sort :: "('a \<Rightarrow> 'a \<Rightarrow> rat) \<Rightarrow> 'a list \<Rightarrow> 'a list" where
  "array_sort cmp [] = []"
| "array_sort cmp (x # xs) = insert_by cmp x (array_sort cmp xs)"

definition sortedPermutationResults :: "permutation_result list \<Rightarrow> permutation_result list" where
  "sortedPermutationResults rs = array_sort compareFn (withConfidenceResults rs) @ noConfidenceResults rs"

text \<open>\<open>score ? `${score}` : ``\<close>: zero is falsy, like \<open>null\<close> and \<open>undefined\<close>.\<close>

definition confidence_text :: "(rat \<Rightarrow> string) \<Rightarrow> score \<Rightarrow> string" where
  "confidence_text numberToString sc =
     (case sc of
        Number x \<Rightarrow> if x \<noteq> 0 then numberToString x else []
      | Null \<Rightarrow> []
      | Undefined \<Rightarrow> [])"

text \<open>The eleven columns of one result, in the order of the source; the key
  \<open>`Emissions (tCO2e) (${idx})`\<close> is the pair \<open>(''Emissions (tCO2e)'', idx)\<close>.\<close>

definition rank_columns :: "(rat \<Rightarrow> string) \<Rightarrow> permutation_result \<Rightarrow> (string \<times> string) list" where
  "rank_columns numberToString result =
     [(''Emissions (tCO2e)'', emissions result),
      (''Emission factor name'', name result),
      (''Emission factor source'', source result),
      (''Emission factor intensity'', emissionFactorIntensity result),
      (''Emission factor intensity unit'',
         emissionFactorNumeratorUnit result @ ''CO2e/'' @ requestedCurrency result),
      (''Emission factor original unit'',
         emissionFactorNumeratorUnit result @ ''CO2e/'' @ emissionFactorDenominatorUnit result),
      (''Exchange rate'', exchangeRate result),
      (''Confidence score'', confidence_text numberToString (score result)),
      (''Dashboard URL'', url result),
      (''Search term used'', searchTermUsed result),
      (''Category used'', categoryUsed result)]"

text \<open>The names of the eleven columns.\<close>

definition column_names :: "string list" where
  "column_names = [''Emissions (tCO2e)'', ''Emission factor name'', ''Emission factor source'',
     ''Emission factor intensity'', ''Emission factor intensity unit'', ''Emission factor original unit'',
     ''Exchange rate'', ''Confidence score'', ''Dashboard URL'', ''Search term used'', ''Category used'']"

type_synonym ranked_columns = "string \<times> nat \<rightharpoonup> string"

text \<open>The \<open>reduce\<close> that builds \<open>resultObj\<close>: \<open>i\<close> is the index of the element, \<open>acc\<close> the
  accumulator, extended by the columns of rank \<open>i + 1\<close>.\<close>

fun reduce_results :: "(rat \<Rightarrow> string) \<Rightarrow> nat \<Rightarrow> ranked_columns \<Rightarrow> permutation_result list \<Rightarrow> ranked_columns" where
  "reduce_results numberToString i acc [] = acc"
| "reduce_results numberToString i acc (result # rest) =
     reduce_results numberToString (i + 1)
       (acc ++ map_of (map (\<lambda>(column, text). ((column, i + 1), text)) (rank_columns numberToString result)))
       rest"

definition resultObj :: "(rat \<Rightarrow> string) \<Rightarrow> permutation_result list \<Rightarrow> ranked_columns" where
  "resultObj numberToString rs = reduce_results numberToString 0 Map.empty (sortedPermutationResults rs)"

subsection \<open>Pipeline driver and chunked output writer\<close>

text \<open>What \<open>main\<close> computes from the command line before it loads the input;
  \<open>outputFileRows\<close> is the parsed row limit, a natural number here.\<close>

record config =
  output_name :: string
  searchTermColumnsArr :: "string list"
  categoryColumnsArr :: "string list"
  monetaryAmountColumn :: string
  currencyColumn :: string
  countryCodeColumn :: string
  outputFileRows :: nat

text \<open>An output row \<open>{...row, ...resultObj}\<close>: the input record and the ranked columns.\<close>

record output_row =
  input_row :: record_obj
  ranked :: ranked_columns

text \<open>The body of the loop of \<open>main\<close> up to \<open>out.push\<close>, for row \<open>i\<close>; \<open>None\<close> if it raised.\<close>

definition process_row :: "world \<Rightarrow> config \<Rightarrow> nat \<Rightarrow> record_obj \<Rightarrow> output_row option" where
  "process_row w cfg i row =
     (case fields_trim row (searchTermColumnsArr cfg) of None \<Rightarrow> None | Some searchTerms \<Rightarrow>
      case categories_of row (categoryColumnsArr cfg) of None \<Rightarrow> None | Some categories \<Rightarrow>
      case amount_of row (monetaryAmountColumn cfg) of None \<Rightarrow> None | Some amount \<Rightarrow>
      case field_trim row (currencyColumn cfg) of None \<Rightarrow> None | Some currency \<Rightarrow>
      case field_trim row (countryCodeColumn cfg) of None \<Rightarrow> None | Some countryCode \<Rightarrow>
      case permutationsResults w i amount currency countryCode
             (searchCategoryPermutations searchTerms categories) of None \<Rightarrow> None | Some rs \<Rightarrow>
      Some \<lparr>input_row = row, ranked = resultObj (Number_toString w) rs\<rparr>)"

text \<open>
  The suffix of a chunk file is a JavaScript number put into the file name. The operations
  are those of the source on naturals; a division by zero gives \<open>NaN\<close> or \<open>Infinity\<close>, and a
  remainder by zero is \<open>NaN\<close> (\<open>None\<close>), which is not \<open>=== 0\<close>. Below \<open>2^53\<close> the rounded
  quotient of two naturals has the floor and the ceiling of the exact one.
\<close>

datatype suffix = Finite nat | NaN | Infinity

definition remainder :: "nat \<Rightarrow> nat \<Rightarrow> nat option" where
  "remainder a b = (if b = 0 then None else Some (a mod b))"

definition math_floor_quotient :: "nat \<Rightarrow> nat \<Rightarrow> suffix" where
  "math_floor_quotient a b = (if b = 0 then (if a = 0 then NaN else Infinity) else Finite (a div b))"

definition math_ceil_quotient :: "nat \<Rightarrow> nat \<Rightarrow> suffix" where
  "math_ceil_quotient a b =
     (if b = 0 then (if a = 0 then NaN else Infinity)
      else Finite (if a mod b = 0 then a div b else a div b + 1))"

text \<open>
  The loop of \<open>main\<close> from row \<open>i\<close> on: \<open>out\<close> is the buffer, \<open>files\<close> the calls of
  \<open>writeFile\<close> made so far (suffix and rows). The flag of the result says whether the loop
  ran to its end; it is \<open>False\<close> when a row raised.
\<close>

function main_loop :: "(nat \<Rightarrow> 'a \<Rightarrow> 'r option) \<Rightarrow> nat \<Rightarrow> 'a list \<Rightarrow> nat \<Rightarrow> 'r list
    \<Rightarrow> (suffix \<times> 'r list) list \<Rightarrow> (suffix \<times> 'r list) list \<times> bool" where
  "main_loop process limit rows i out files =
     (if i < length rows then
        (case process i (rows ! i) of
           None \<Rightarrow> (files, False)
         | Some r \<Rightarrow>
             if (remainder (i + 1) limit = Some 0 \<and> i \<noteq> 0) \<or> i = length rows - 1
             then main_loop process limit rows (i + 1) []
                    (files @ [(if i = length rows - 1 then math_ceil_quotient i limit
                               else math_floor_quotient i limit, out @ [r])])
             else main_loop process limit rows (i + 1) (out @ [r]) files)
      else (files, True))"
  by pat_completeness auto
termination
  by (relation "measure (\<lambda>(process, limit, rows, i, out, files). length rows - i)") auto

subsection \<open>Loading the input\<close>

text \<open>A value of type \<open>unknown\<close> handed to \<open>passArray\<close> or to \<open>passStringRecord\<close>; the
  string is the text of a value that is no array, or no object.\<close>

datatype 'a unknown_array = NotArray string | Array "'a list"

datatype unknown_object = NotObject string | Object record_obj

fun check_properties :: "record_obj \<Rightarrow> string list \<Rightarrow> string + record_obj" where
  "check_properties obj [] = Ok obj"
| "check_properties obj (p # ps) =
     (case map_of obj p of
        Some (Str v) \<Rightarrow> check_properties obj ps
      | Some (NonStr t) \<Rightarrow> Err (''Property '' @ p @ '' is not a string: '' @ t)
      | None \<Rightarrow> Err (''Property '' @ p @ '' is not a string: undefined''))"

definition passStringRecord :: "unknown_object \<Rightarrow> string list \<Rightarrow> string + record_obj" where
  "passStringRecord val properties =
     (case val of
        NotObject shown \<Rightarrow> Err (shown @ '' is not an object'')
      | Object obj \<Rightarrow> check_properties obj properties)"

fun join_comma :: "string list \<Rightarrow> string" where
  "join_comma [] = []"
| "join_comma [x] = x"
| "join_comma (x # y # zs) = x @ '', '' @ join_comma (y # zs)"

definition passArray :: "(rat \<Rightarrow> string) \<Rightarrow> (string \<Rightarrow> string) \<Rightarrow> 'a unknown_array
    \<Rightarrow> ('a \<Rightarrow> string + 'b) \<Rightarrow> string + 'a list" where
  "passArray numberToString errToString val validator =
     (case val of
        NotArray shown \<Rightarrow> Err (shown @ '' is not an array'')
      | Array items \<Rightarrow>
          if length items = 0 then Err ''The array is empty''
          else
            (let errors =
                   filter isl
                     (map (\<lambda>(index, item).
                             map_sum (\<lambda>e. numberToString (of_nat index) @ '': '' @ e) (\<lambda>v. v) (validator item))
                        (zip [0..<length items] items))
             in if length errors > 0
                then Err (''One or more items failed validation: ''
                            @ join_comma (map (\<lambda>r. errToString (projl r)) errors))
                else Ok items))"

definition readFileChecked :: "world \<Rightarrow> string \<Rightarrow> string + string" where
  "readFileChecked w path =
     (case readFile w path of
        Inl e \<Rightarrow> Err (''Failed to load '' @ path @ '': '' @ e)
      | Inr buffer \<Rightarrow> Ok buffer)"

definition parseCsvChecked :: "world \<Rightarrow> string \<Rightarrow> string + record_obj list" where
  "parseCsvChecked w buffer =
     (case parseCsv w buffer of
        Inl e \<Rightarrow> Err (''Failed to parse CSV content: '' @ e)
      | Inr records \<Rightarrow> Ok records)"

definition loadCsv :: "world \<Rightarrow> string \<Rightarrow> string list \<Rightarrow> string + record_obj list" where
  "loadCsv w path expected =
     (case readFileChecked w path of
        Inl e \<Rightarrow> Err e
      | Inr rawContent \<Rightarrow>
          (case parseCsvChecked w rawContent of
             Inl e \<Rightarrow> Err e
           | Inr parsed \<Rightarrow>
               passArray (Number_toString w) (Err_toString w) (Array parsed)
                 (\<lambda>item. passStringRecord (Object item) expected)))"

text \<open>\<open>main\<close> from the loading of the input on: it exits with status 1 and the error on the
  console, or runs the loop.\<close>

datatype main_outcome =
    Exit nat string
  | Ran "(suffix \<times> output_row list) list" bool

definition main :: "world \<Rightarrow> config \<Rightarrow> string \<Rightarrow> main_outcome" where
  "main w cfg filename =
     (case loadCsv w filename
             (searchTermColumnsArr cfg
                @ [monetaryAmountColumn cfg, currencyColumn cfg, countryCodeColumn cfg]
                @ categoryColumnsArr cfg) of
        Inl error \<Rightarrow> Exit 1 error
      | Inr rows \<Rightarrow>
          (case main_loop (process_row w cfg) (outputFileRows cfg) rows 0 [] [] of
             (files, completed) \<Rightarrow> Ran files completed))"

subsection \<open>Example inputs\<close>

definition example_args :: estimate_args where
  "example_args = \<lparr>arg_searchTerm = ''Coffee'', arg_category = None, arg_amount = ''10.00'',
     arg_currency = ''USD'', arg_countryCode = ''USA''\<rparr>"

text \<open>A client whose first \<open>n\<close> answers are failures without a status code, and one that
  rejects with a status code.\<close>

definition flaky_client :: "nat \<Rightarrow> lune_client" where
  "flaky_client n request made =
     (if made < n then Err \<lparr>statusCode = None, description = ''socket hang up''\<rparr> else Ok NoMass)"

definition rejecting_client :: lune_client where
  "rejecting_client request made = Err \<lparr>statusCode = Some 422, description = ''Unprocessable''\<rparr>"

definition example_row :: record_obj where
  "example_row = [(''Category Level 3'', Str '' Coffee''), (''Category Level 2'', Str ''Food ''),
     (''Sum of Spend'', Str ''10,00''), (''Currency'', Str ''USD''), (''Country'', Str ''USA'')]"

text \<open>A rendering of numbers, results with a given name and score, and a candidate.\<close>

definition plain_number :: "rat \<Rightarrow> string" where
  "plain_number x = ''#''"

definition example_result :: "string \<Rightarrow> score \<Rightarrow> permutation_result" where
  "example_result n sc =
     \<lparr>name = n, emissions = ''0.001'', source = ''exiobase'', url = ''u'',
      searchTermUsed = ''Coffee'', categoryUsed = [], score = sc, exchangeRate = ''1'',
      emissionFactorNumeratorUnit = ''kg'', emissionFactorDenominatorUnit = ''USD'',
      emissionFactorIntensity = ''0.1'', requestedCurrency = ''USD''\<rparr>"

definition example_results :: "permutation_result list" where
  "example_results =
     [example_result ''A'' (Number (9 / 10)), example_result ''E'' Null,
      example_result ''Z'' (Number 0), example_result ''N'' Undefined,
      example_result ''B'' (Number (1 / 2))]"

definition example_candidate :: candidate where
  "example_candidate = \<lparr>searchTerm = ''Coffee'', category = Some ''Food''\<rparr>"

text \<open>A world whose input file has a header and no data row, a configuration, and a world
  whose input file has two data rows.\<close>

definition example_candidates :: "candidate list" where
  "example_candidates = [example_candidate, \<lparr>searchTerm = ''Tea'', category = None\<rparr>]"

definition example_world :: world where
  "example_world =
     \<lparr>readFile = (\<lambda>path. Ok ''Category Level 3,Sum of Spend,Currency,Country''),
      parseCsv = (\<lambda>buffer. Ok []),
      createTransactionEstimate = (\<lambda>i j. rejecting_client),
      finishTime = (\<lambda>i j. j),
      Big_toString = plain_number,
      Number_toString = plain_number,
      Err_toString = (\<lambda>e. e)\<rparr>"

definition example_config :: config where
  "example_config =
     \<lparr>output_name = ''out'',
      searchTermColumnsArr = [''Category Level 3''],
      categoryColumnsArr = [],
      monetaryAmountColumn = ''Sum of Spend'',
      currencyColumn = ''Currency'',
      countryCodeColumn = ''Country'',
      outputFileRows = 10000\<rparr>"

definition two_row_world :: world where
  "two_row_world = example_world\<lparr>parseCsv := (\<lambda>buffer. Ok [example_row, example_row])\<rparr>"

section \<open>Properties\<close>

subsection \<open>Permutation generator\<close>

lemma push_categories_eq:
  "push_categories s cs result = result @ map (\<lambda>c. \<lparr>searchTerm = s, category = c\<rparr>) cs"
  by (induction cs arbitrary: result) simp_all

lemma push_searchTerms_eq:
  "push_searchTerms ss cs result =
     result @ concat (map (\<lambda>s. map (\<lambda>c. \<lparr>searchTerm = s, category = c\<rparr>) cs) ss)"
  by (induction ss arbitrary: result) (simp_all add: push_categories_eq)

lemma length_concat_const:
  "length (concat (map (\<lambda>s. map (f s) cs) ss)) = length ss * length cs"
  by (induction ss) simp_all

lemma fields_trim_length: "fields_trim row columns = Some vs \<Longrightarrow> length vs = length columns"
  by (induction columns arbitrary: vs) (auto split: option.splits)

lemma categories_of_length:
  "categories_of row cols = Some cats \<Longrightarrow> length cats = max 1 (length cols)"
  by (auto simp: categories_of_def fields_trim_length max_def not_less_eq_eq split: if_splits)

lemma nth_concat_const:
  "i < length ss \<Longrightarrow> j < length cs \<Longrightarrow>
   concat (map (\<lambda>s. map (f s) cs) ss) ! (i * length cs + j) = f (ss ! i) (cs ! j)"
proof (induction ss arbitrary: i)
  case Nil
  then show ?case by simp
next
  case (Cons s ss)
  show ?case
  proof (cases i)
    case 0
    with Cons.prems show ?thesis by (simp add: nth_append)
  next
    case (Suc i')
    with Cons.prems have "i' < length ss" by simp
    from Cons.IH[OF this Cons.prems(2)] Suc show ?thesis
      by (simp add: nth_append add.assoc)
  qed
qed

subsection \<open>Estimation request adapter: the retry loop\<close>

lemma transientD: "transient x \<Longrightarrow> \<exists>e. x = Inl e \<and> statusCode e = None"
  by (cases x) (simp_all add: transient_def)

lemma retry_loop_ok:
  assumes "k < MAX_RETRIES" "r \<le> k"
    and "\<forall>j. r \<le> j \<and> j < k \<longrightarrow> transient (client req j)"
    and "client req k = Inr res"
  shows "retry_loop client req r tr =
           (Result (Some res), tr @ concat (replicate (k - r) [CreateTransactionEstimate req, SleepMs 500])
              @ [CreateTransactionEstimate req])"
  using assms
proof (induction "k - r" arbitrary: r tr)
  case 0
  then have "r = k" by simp
  with 0 show ?case by (subst retry_loop.simps) simp
next
  case (Suc n)
  then have rk: "r < k" by simp
  with Suc.prems have "transient (client req r)" by simp
  then obtain e where e: "client req r = Inl e" "statusCode e = None"
    using transientD by blast
  have n: "n = k - Suc r" using Suc.hyps(2) by simp
  have "retry_loop client req (Suc r) (tr @ [CreateTransactionEstimate req, SleepMs 500]) =
          (Result (Some res), (tr @ [CreateTransactionEstimate req, SleepMs 500]) @
             concat (replicate (k - Suc r) [CreateTransactionEstimate req, SleepMs 500]) @ [CreateTransactionEstimate req])"
    using Suc.prems rk by (intro Suc.hyps(1)[OF n]) auto
  moreover have "k - r = Suc (k - Suc r)" using rk by simp
  ultimately show ?case using e rk Suc.prems(1)
    by (subst retry_loop.simps) (simp add: MAX_RETRIES_def)
qed

lemma retry_loop_exhausted:
  assumes "r < MAX_RETRIES"
    and "\<forall>j. r \<le> j \<and> j < MAX_RETRIES \<longrightarrow> transient (client req j)"
    and "client req (MAX_RETRIES - 1) = Inl e"
  shows "retry_loop client req r tr =
           (Return (description e), tr @ concat (replicate (MAX_RETRIES - 1 - r) [CreateTransactionEstimate req, SleepMs 500])
              @ [CreateTransactionEstimate req])"
  using assms
proof (induction "MAX_RETRIES - 1 - r" arbitrary: r tr)
  case 0
  then have r: "r = MAX_RETRIES - 1" by simp
  from 0 have "transient (client req r)" by simp
  with 0 r have "statusCode e = None" by (simp add: transient_def)
  with 0 r show ?case by (subst retry_loop.simps) (simp add: MAX_RETRIES_def)
next
  case (Suc n)
  then have rk: "r < MAX_RETRIES - 1" by simp
  from Suc.prems have "transient (client req r)" by simp
  then obtain e' where e: "client req r = Inl e'" "statusCode e' = None"
    using transientD by blast
  have n: "n = MAX_RETRIES - 1 - Suc r" using Suc.hyps(2) by simp
  have "retry_loop client req (Suc r) (tr @ [CreateTransactionEstimate req, SleepMs 500]) =
          (Return (description e), (tr @ [CreateTransactionEstimate req, SleepMs 500]) @
             concat (replicate (MAX_RETRIES - 1 - Suc r) [CreateTransactionEstimate req, SleepMs 500]) @ [CreateTransactionEstimate req])"
    using Suc.prems rk by (intro Suc.hyps(1)[OF n]) auto
  moreover have "MAX_RETRIES - 1 - r = Suc (MAX_RETRIES - 1 - Suc r)" using rk by simp
  ultimately show ?case using e rk
    by (subst retry_loop.simps) simp
qed

lemma call_count_attempts: "call_count (attempts req k) = Suc k"
  by (induction k) (simp_all add: attempts_def)

lemma waits_attempts: "waits (attempts req k) = replicate k 500"
  by (induction k) (simp_all add: attempts_def)

text \<open>
  Claim C1. Let the first \<open>k\<close> answers of the service to the request of a candidate be
  failures without a status code. If \<open>k < 5\<close> and the next answer is a success,
  \<open>calculateEmissions\<close> returns \<open>Ok\<close> after exactly \<open>k + 1\<close> calls, with a wait of 500 ms after
  each of the \<open>k\<close> failed ones and none after the last call. If \<open>k \<ge> 5\<close>, it returns \<open>Err\<close>
  with the description of the fifth failure, after exactly 5 calls and 4 waits of 500 ms.
\<close>

theorem calculateEmissions_retries:
  assumes "\<forall>j<k. transient (luneClient (request_of args) j)"
  shows "(k < 5 \<longrightarrow> (\<forall>res. luneClient (request_of args) k = Ok res \<longrightarrow>
            calculateEmissions luneClient bigToString args =
              (Some (Ok (estimation_of bigToString (arg_currency args) res)), attempts (request_of args) k)
            \<and> call_count (snd (calculateEmissions luneClient bigToString args)) = k + 1
            \<and> waits (snd (calculateEmissions luneClient bigToString args)) = replicate k 500))
       \<and> (5 \<le> k \<longrightarrow> (\<exists>e. luneClient (request_of args) 4 = Err e
            \<and> calculateEmissions luneClient bigToString args =
              (Some (Err (description e)), attempts (request_of args) 4)
            \<and> call_count (snd (calculateEmissions luneClient bigToString args)) = 5
            \<and> waits (snd (calculateEmissions luneClient bigToString args)) = replicate 4 500))"
proof (intro conjI impI allI)
  fix res assume k: "k < 5" and ok: "luneClient (request_of args) k = Ok res"
  have "retry_loop luneClient (request_of args) 0 [] = (Result (Some res), attempts (request_of args) k)"
    using retry_loop_ok[of k 0 luneClient "request_of args" res "[]"] k ok assms
    by (simp add: MAX_RETRIES_def attempts_def)
  then show "calculateEmissions luneClient bigToString args =
              (Some (Ok (estimation_of bigToString (arg_currency args) res)), attempts (request_of args) k)"
    by (simp add: calculateEmissions_def)
  then show "call_count (snd (calculateEmissions luneClient bigToString args)) = k + 1"
    and "waits (snd (calculateEmissions luneClient bigToString args)) = replicate k 500"
    by (simp_all add: call_count_attempts waits_attempts)
next
  assume k: "5 \<le> k"
  with assms have tr: "\<forall>j. 0 \<le> j \<and> j < MAX_RETRIES \<longrightarrow> transient (luneClient (request_of args) j)"
    by (simp add: MAX_RETRIES_def)
  then have "transient (luneClient (request_of args) 4)" by (simp add: MAX_RETRIES_def)
  then obtain e where e: "luneClient (request_of args) 4 = Err e"
    using transientD by blast
  have "retry_loop luneClient (request_of args) 0 [] = (Return (description e), attempts (request_of args) 4)"
    using retry_loop_exhausted[of 0 luneClient "request_of args" e "[]"] tr e
    by (simp add: MAX_RETRIES_def attempts_def)
  then have "calculateEmissions luneClient bigToString args =
              (Some (Err (description e)), attempts (request_of args) 4)"
    by (simp add: calculateEmissions_def)
  with e show "\<exists>e. luneClient (request_of args) 4 = Err e
            \<and> calculateEmissions luneClient bigToString args =
              (Some (Err (description e)), attempts (request_of args) 4)
            \<and> call_count (snd (calculateEmissions luneClient bigToString args)) = 5
            \<and> waits (snd (calculateEmissions luneClient bigToString args)) = replicate 4 500"
    by (simp add: call_count_attempts waits_attempts)
qed

theorem calculateEmissions_retries_witness:
  "transient (flaky_client 2 (request_of example_args) 0)
   \<and> transient (flaky_client 2 (request_of example_args) 1)
   \<and> flaky_client 2 (request_of example_args) 2 = Ok NoMass
   \<and> call_count (snd (calculateEmissions (flaky_client 2) (\<lambda>_. []) example_args)) = 3
   \<and> waits (snd (calculateEmissions (flaky_client 2) (\<lambda>_. []) example_args)) = [500, 500]
   \<and> transient (flaky_client 7 (request_of example_args) 4)
   \<and> fst (calculateEmissions (flaky_client 7) (\<lambda>_. []) example_args) = Some (Err ''socket hang up'')
   \<and> call_count (snd (calculateEmissions (flaky_client 7) (\<lambda>_. []) example_args)) = 5"
proof -
  have h2: "\<forall>j<2. transient (flaky_client 2 (request_of example_args) j)"
    by (simp add: transient_def flaky_client_def)
  have h7: "\<forall>j<7. transient (flaky_client 7 (request_of example_args) j)"
    by (simp add: transient_def flaky_client_def)
  have ok: "flaky_client 2 (request_of example_args) 2 = Ok NoMass"
    by (simp add: flaky_client_def)
  from calculateEmissions_retries[where k = 2 and luneClient = "flaky_client 2"
         and args = example_args and bigToString = "\<lambda>_. []"]
       calculateEmissions_retries[where k = 7 and luneClient = "flaky_client 7"
         and args = example_args and bigToString = "\<lambda>_. []"] h2 h7 ok
  show ?thesis
    by (simp add: flaky_client_def transient_def call_count_attempts waits_attempts numeral_2_eq_2)
qed

text \<open>
  Claim C5. If the first answer of the service is a failure that carries a status code,
  \<open>calculateEmissions\<close> returns \<open>Err\<close> with its description after exactly one call: the trace
  holds that call and nothing else, so there is neither a retry nor a wait.
\<close>

theorem calculateEmissions_rejected:
  assumes "luneClient (request_of args) 0 = Err e" and "statusCode e \<noteq> None"
  shows "calculateEmissions luneClient bigToString args =
           (Some (Err (description e)), [CreateTransactionEstimate (request_of args)])"
  using assms by (simp add: calculateEmissions_def retry_loop.simps[of _ _ 0] MAX_RETRIES_def)

theorem calculateEmissions_rejected_witness:
  "rejecting_client (request_of example_args) 0 = Err \<lparr>statusCode = Some 422, description = ''Unprocessable''\<rparr>
   \<and> statusCode \<lparr>statusCode = Some 422, description = ''Unprocessable''\<rparr> \<noteq> None
   \<and> calculateEmissions rejecting_client (\<lambda>_. []) example_args =
        (Some (Err ''Unprocessable''), [CreateTransactionEstimate (request_of example_args)])"
proof -
  have h: "rejecting_client (request_of example_args) 0 = Err \<lparr>statusCode = Some 422, description = ''Unprocessable''\<rparr>"
    by (simp add: rejecting_client_def)
  have s: "statusCode \<lparr>statusCode = Some 422, description = ''Unprocessable''\<rparr> \<noteq> None" by simp
  from calculateEmissions_rejected[where luneClient = rejecting_client and args = example_args
         and bigToString = "\<lambda>_. []", OF h s] h s
  show ?thesis by simp
qed

subsection \<open>Permutation generator: count and order\<close>

text \<open>
  Claim C4. For a row whose search-term columns give the values \<open>searchTerms\<close> and whose
  category columns give \<open>categories\<close> (the single category \<open>undefined\<close> when there is no
  category column), the generator returns exactly \<open>S * max 1 C\<close> candidates, \<open>S\<close> and \<open>C\<close>
  being the numbers of search-term and of category columns, and the candidate at position
  \<open>i * length categories + j\<close> pairs the \<open>i\<close>-th search term with the \<open>j\<close>-th category:
  search terms in the outer loop, categories in the inner one.
\<close>

theorem candidates_count_and_order:
  assumes "fields_trim row searchTermColumns = Some searchTerms"
    and "categories_of row categoryColumns = Some categories"
  shows "length (searchCategoryPermutations searchTerms categories) =
           length searchTermColumns * max 1 (length categoryColumns)
       \<and> (\<forall>i<length searchTerms. \<forall>j<length categories.
            searchCategoryPermutations searchTerms categories ! (i * length categories + j) =
              \<lparr>searchTerm = searchTerms ! i, category = categories ! j\<rparr>)"
proof -
  have eq: "searchCategoryPermutations searchTerms categories =
          concat (map (\<lambda>s. map (\<lambda>c. \<lparr>searchTerm = s, category = c\<rparr>) categories) searchTerms)"
    by (simp add: searchCategoryPermutations_def push_searchTerms_eq)
  have "length (searchCategoryPermutations searchTerms categories) = length searchTerms * length categories"
    unfolding eq by (rule length_concat_const)
  with assms have "length (searchCategoryPermutations searchTerms categories) =
           length searchTermColumns * max 1 (length categoryColumns)"
    by (simp add: fields_trim_length categories_of_length)
  moreover have "\<forall>i<length searchTerms. \<forall>j<length categories.
            searchCategoryPermutations searchTerms categories ! (i * length categories + j) =
              \<lparr>searchTerm = searchTerms ! i, category = categories ! j\<rparr>"
    unfolding eq by (simp add: nth_concat_const)
  ultimately show ?thesis by simp
qed

theorem candidates_count_and_order_witness:
  "fields_trim example_row [''Category Level 3'', ''Category Level 2''] = Some [''Coffee'', ''Food'']
   \<and> categories_of example_row [] = Some [None]
   \<and> length (searchCategoryPermutations [''Coffee'', ''Food''] [None]) = 2 * max 1 (length ([] :: string list))
   \<and> searchCategoryPermutations [''Coffee'', ''Food''] [None] ! 1 = \<lparr>searchTerm = ''Food'', category = None\<rparr>"
proof -
  have h1: "fields_trim example_row [''Category Level 3'', ''Category Level 2''] = Some [''Coffee'', ''Food'']"
    by (simp add: example_row_def field_trim_def trim_def isWhiteSpace_def)
  have h2: "categories_of example_row [] = Some [None]"
    by (simp add: categories_of_def)
  from candidates_count_and_order[OF h1 h2] h1 h2 show ?thesis
    by (auto simp del: max_nat.right_neutral)
qed

subsection \<open>Amount normalisation\<close>

lemma replace_commas_filter: "replace_commas s = filter (\<lambda>c. c \<noteq> CHR '','') s"
  by (induction s) simp_all

text \<open>
  Claim C6 says that the amount \<open>10,00\<close> is normalised to \<open>10.00\<close>. It is not: the comma is
  deleted, not turned into a decimal point.
\<close>

theorem amount_comma_counterexample:
  "amount_of [(''Sum of Spend'', Str ''10,00'')] ''Sum of Spend'' \<noteq> Some ''10.00''"
  by (simp add: amount_of_def field_trim_def trim_def isWhiteSpace_def)

text \<open>
  Claim C6, amended. The amount of a row is the trimmed value of the amount column with
  every comma deleted and every other character kept in its place; so \<open>10,00\<close> becomes
  \<open>1000\<close>, and a fractional part written after a decimal point is kept.
\<close>

theorem amount_commas_deleted:
  assumes "map_of row amountColumn = Some (Str s)"
  shows "amount_of row amountColumn = Some (filter (\<lambda>c. c \<noteq> CHR '','') (trim s))"
  using assms by (simp add: amount_of_def field_trim_def replace_commas_filter)

theorem amount_commas_deleted_witness:
  "map_of example_row ''Sum of Spend'' = Some (Str ''10,00'')
   \<and> amount_of example_row ''Sum of Spend'' = Some ''1000''"
proof -
  have h: "map_of example_row ''Sum of Spend'' = Some (Str ''10,00'')"
    by (simp add: example_row_def)
  from amount_commas_deleted[OF h] h show ?thesis
    by (simp add: trim_def isWhiteSpace_def)
qed

subsection \<open>Ranker and merger\<close>

lemma mset_insert_by: "mset (insert_by cmp x xs) = add_mset x (mset xs)"
  by (induction xs) simp_all

lemma mset_array_sort: "mset (array_sort cmp xs) = mset xs"
  by (induction xs) (simp_all add: mset_insert_by)

lemma set_insert_by: "set (insert_by cmp x xs) = insert x (set xs)"
  by (induction xs) auto

lemma length_array_sort: "length (array_sort cmp xs) = length xs"
  using mset_array_sort[of cmp xs] by (metis size_mset)

lemma sorted_insert_by_score:
  "sorted (map (\<lambda>r. score_number (score r)) (insert_by compareFn x xs)) =
   sorted (map (\<lambda>r. score_number (score r)) xs)"
  by (induction xs) (auto simp: compareFn_def set_insert_by)

lemma sorted_array_sort_score:
  "sorted (map (\<lambda>r. score_number (score r)) (array_sort compareFn xs))"
  by (induction xs) (simp_all add: sorted_insert_by_score)

lemma map_of_ranked_key:
  "map_of (map (\<lambda>(column, text). ((column, i), text)) xs) (c, j) =
     (if j = i then map_of xs c else None)"
  by (induction xs) auto

lemma reduce_results_lookup:
  "reduce_results nts k acc rs (c, j) =
     (if k < j \<and> j \<le> k + length rs
      then (case map_of (rank_columns nts (rs ! (j - k - 1))) c of
              Some v \<Rightarrow> Some v
            | None \<Rightarrow> acc (c, j))
      else acc (c, j))"
proof (induction rs arbitrary: k acc)
  case Nil
  then show ?case by auto
next
  case (Cons r rs)
  let ?M = "map_of (map (\<lambda>(column, text). ((column, k + 1), text)) (rank_columns nts r))"
  have M: "?M (c, j) = (if j = k + 1 then map_of (rank_columns nts r) c else None)"
    by (rule map_of_ranked_key)
  have "reduce_results nts k acc (r # rs) (c, j) =
          (if Suc k < j \<and> j \<le> Suc k + length rs
           then (case map_of (rank_columns nts (rs ! (j - Suc k - 1))) c of
                   Some v \<Rightarrow> Some v
                 | None \<Rightarrow> (acc ++ ?M) (c, j))
           else (acc ++ ?M) (c, j))"
    using Cons.IH[of "Suc k" "acc ++ ?M"] by simp
  also have "\<dots> =
          (if k < j \<and> j \<le> k + length (r # rs)
           then (case map_of (rank_columns nts ((r # rs) ! (j - k - 1))) c of
                   Some v \<Rightarrow> Some v
                 | None \<Rightarrow> acc (c, j))
           else acc (c, j))"
  proof (cases "j = k + 1")
    case True
    then show ?thesis by (simp add: map_add_def map_of_ranked_key split: option.splits)
  next
    case False
    then have eq: "(acc ++ ?M) (c, j) = acc (c, j)" by (simp add: map_add_def map_of_ranked_key)
    have "Suc k < j \<Longrightarrow> (r # rs) ! (j - k - 1) = rs ! (j - Suc k - 1)"
      by (simp add: nth_Cons')
    moreover have "k < j \<longleftrightarrow> Suc k < j" using False by auto
    ultimately show ?thesis unfolding eq by auto
  qed
  finally show ?case .
qed

lemma resultObj_lookup:
  "resultObj nts rs (c, j) =
     (if 0 < j \<and> j \<le> length (sortedPermutationResults rs)
      then map_of (rank_columns nts (sortedPermutationResults rs ! (j - 1))) c
      else None)"
  by (simp add: resultObj_def reduce_results_lookup split: option.splits)

lemma length_sortedPermutationResults: "length (sortedPermutationResults rs) = length rs"
proof -
  have "length (withConfidenceResults rs) + length (noConfidenceResults rs) = length rs"
    unfolding withConfidenceResults_def noConfidenceResults_def
    using sum_length_filter_compl[of "\<lambda>r. score r \<noteq> Null \<and> score r \<noteq> Undefined" rs]
    by (simp add: de_Morgan_conj)
  then show ?thesis
    by (simp add: sortedPermutationResults_def length_array_sort)
qed

text \<open>
  Claim C2. The ranked sequence is a list \<open>scored\<close> followed by a list \<open>unscored\<close>:
  \<open>scored\<close> holds exactly the results whose score is neither \<open>null\<close> nor \<open>undefined\<close> (as a
  multiset) and is sorted by non-decreasing score; \<open>unscored\<close> is the list of the other
  results in their input order. The columns of rank \<open>i + 1\<close> in \<open>resultObj\<close> are those of the
  element at position \<open>i\<close> of this concatenation, and \<open>resultObj\<close> has no other rank.
\<close>

theorem ranker_order:
  "\<exists>scored unscored.
     sortedPermutationResults rs = scored @ unscored
     \<and> mset scored = mset (filter (\<lambda>r. score r \<noteq> Null \<and> score r \<noteq> Undefined) rs)
     \<and> sorted (map (\<lambda>r. score_number (score r)) scored)
     \<and> unscored = filter (\<lambda>r. score r = Null \<or> score r = Undefined) rs
     \<and> length (scored @ unscored) = length rs
     \<and> (\<forall>i<length rs. \<forall>column.
           resultObj numberToString rs (column, i + 1) =
             map_of (rank_columns numberToString ((scored @ unscored) ! i)) column)
     \<and> (\<forall>column j. resultObj numberToString rs (column, j) \<noteq> None \<longrightarrow> 1 \<le> j \<and> j \<le> length rs)"
proof (intro exI conjI)
  show "sortedPermutationResults rs = array_sort compareFn (withConfidenceResults rs) @ noConfidenceResults rs"
    by (simp add: sortedPermutationResults_def)
  show "mset (array_sort compareFn (withConfidenceResults rs)) =
          mset (filter (\<lambda>r. score r \<noteq> Null \<and> score r \<noteq> Undefined) rs)"
    by (simp add: mset_array_sort withConfidenceResults_def)
  show "sorted (map (\<lambda>r. score_number (score r)) (array_sort compareFn (withConfidenceResults rs)))"
    by (rule sorted_array_sort_score)
  show "noConfidenceResults rs = filter (\<lambda>r. score r = Null \<or> score r = Undefined) rs"
    by (simp add: noConfidenceResults_def)
  show len: "length (array_sort compareFn (withConfidenceResults rs) @ noConfidenceResults rs) = length rs"
    using length_sortedPermutationResults[of rs] by (simp add: sortedPermutationResults_def)
  show "\<forall>i<length rs. \<forall>column.
           resultObj numberToString rs (column, i + 1) =
             map_of (rank_columns numberToString
               ((array_sort compareFn (withConfidenceResults rs) @ noConfidenceResults rs) ! i)) column"
    by (simp add: resultObj_lookup length_sortedPermutationResults flip: sortedPermutationResults_def)
  show "\<forall>column j. resultObj numberToString rs (column, j) \<noteq> None \<longrightarrow> 1 \<le> j \<and> j \<le> length rs"
    by (simp add: resultObj_lookup length_sortedPermutationResults split: if_splits)
qed

lemma example_sorted:
  "sortedPermutationResults example_results =
     [example_result ''Z'' (Number 0), example_result ''B'' (Number (1 / 2)),
      example_result ''A'' (Number (9 / 10)), example_result ''E'' Null, example_result ''N'' Undefined]"
  by (simp add: sortedPermutationResults_def withConfidenceResults_def noConfidenceResults_def
      example_results_def example_result_def compareFn_def)

theorem ranker_order_witness:
  "resultObj plain_number example_results (''Emission factor name'', 1) = Some ''Z''
   \<and> resultObj plain_number example_results (''Emission factor name'', 2) = Some ''B''
   \<and> resultObj plain_number example_results (''Emission factor name'', 3) = Some ''A''
   \<and> resultObj plain_number example_results (''Emission factor name'', 4) = Some ''E''
   \<and> resultObj plain_number example_results (''Emission factor name'', 5) = Some ''N''
   \<and> resultObj plain_number example_results (''Emission factor name'', 6) = None"
proof -
  obtain scored unscored where s: "sortedPermutationResults example_results = scored @ unscored"
    and r: "\<forall>i<length example_results. \<forall>column.
           resultObj plain_number example_results (column, i + 1) =
             map_of (rank_columns plain_number ((scored @ unscored) ! i)) column"
    and d: "\<forall>column j. resultObj plain_number example_results (column, j) \<noteq> None
              \<longrightarrow> 1 \<le> j \<and> j \<le> length example_results"
    using ranker_order[of example_results plain_number] by blast
  have len: "length example_results = 5" by (simp add: example_results_def)
  have inst: "resultObj plain_number example_results (''Emission factor name'', i + 1) =
      map_of (rank_columns plain_number (sortedPermutationResults example_results ! i)) ''Emission factor name''"
    if "i < 5" for i
    using r len s that by simp
  have a1: "resultObj plain_number example_results (''Emission factor name'', 1) = Some ''Z''"
    using inst[of 0] by (simp add: example_sorted rank_columns_def example_result_def)
  have a2: "resultObj plain_number example_results (''Emission factor name'', 2) = Some ''B''"
    using inst[of 1] by (simp add: example_sorted rank_columns_def example_result_def numeral_2_eq_2)
  have a3: "resultObj plain_number example_results (''Emission factor name'', 3) = Some ''A''"
    using inst[of 2] by (simp add: example_sorted rank_columns_def example_result_def)
  have a4: "resultObj plain_number example_results (''Emission factor name'', 4) = Some ''E''"
    using inst[of 3] by (simp add: example_sorted rank_columns_def example_result_def)
  have a5: "resultObj plain_number example_results (''Emission factor name'', 5) = Some ''N''"
    using inst[of 4] by (simp add: example_sorted rank_columns_def example_result_def)
  have "resultObj plain_number example_results (''Emission factor name'', 6) = None"
    using d len by fastforce
  with a1 a2 a3 a4 a5 show ?thesis by blast
qed

lemma set_array_sort: "set (array_sort cmp xs) = set xs"
  using mset_array_sort[of cmp xs] by (metis set_mset_mset)

lemma with_confidence_scored:
  "x \<in> set (withConfidenceResults rs) \<Longrightarrow> \<exists>v. score x = Number v"
  by (cases "score x") (auto simp: withConfidenceResults_def)

text \<open>
  Claim C9. A result whose score is exactly 0 sits in the scored part of the ranking, at a
  position \<open>i\<close> before every result without a score; no result ranked before it has a
  greater score (if no score is negative, those before it have the score 0 too). Yet its
  column \<open>Confidence score (i + 1)\<close> is the empty string, as it is for the scores \<open>null\<close> and
  \<open>undefined\<close>.
\<close>

theorem zero_score_ranked_but_blank:
  assumes "r \<in> set rs" and "score r = Number 0"
  shows "(\<exists>i<length (withConfidenceResults rs).
            sortedPermutationResults rs ! i = r
          \<and> resultObj numberToString rs (''Confidence score'', i + 1) = Some []
          \<and> (\<forall>j<i. \<exists>v. score (sortedPermutationResults rs ! j) = Number v \<and> v \<le> 0)
          \<and> ((\<forall>x\<in>set rs. 0 \<le> score_number (score x))
                \<longrightarrow> (\<forall>j<i. score (sortedPermutationResults rs ! j) = Number 0))
          \<and> (\<forall>j<length rs. score (sortedPermutationResults rs ! j) = Null
                  \<or> score (sortedPermutationResults rs ! j) = Undefined \<longrightarrow> i < j))
       \<and> confidence_text numberToString Null = []
       \<and> confidence_text numberToString Undefined = []"
proof -
  let ?A = "array_sort compareFn (withConfidenceResults rs)"
  let ?S = "sortedPermutationResults rs"
  have S: "?S = ?A @ noConfidenceResults rs" by (simp add: sortedPermutationResults_def)
  have lenA: "length ?A = length (withConfidenceResults rs)" by (rule length_array_sort)
  have setA: "set ?A = set (withConfidenceResults rs)" by (rule set_array_sort)
  from assms have "r \<in> set (withConfidenceResults rs)" by (simp add: withConfidenceResults_def)
  with setA have "r \<in> set ?A" by simp
  then obtain i where i: "i < length ?A" "?A ! i = r" by (auto simp: in_set_conv_nth)
  have nthS: "?S ! j = ?A ! j" if "j < length ?A" for j using that by (simp add: S nth_append)
  have scoredA: "\<exists>v. score (?A ! j) = Number v" if "j < length ?A" for j
    using that setA with_confidence_scored[of "?A ! j" rs] by (metis nth_mem)
  have sorted: "sorted (map (\<lambda>r. score_number (score r)) ?A)" by (rule sorted_array_sort_score)
  have le: "score_number (score (?A ! j)) \<le> 0" if "j < i" for j
  proof -
    have "map (\<lambda>r. score_number (score r)) ?A ! j \<le> map (\<lambda>r. score_number (score r)) ?A ! i"
      using sorted that i(1) by (intro sorted_nth_mono) simp_all
    with that i assms(2) show ?thesis by simp
  qed
  have c1: "?S ! i = r" using i nthS by simp
  have c2: "resultObj numberToString rs (''Confidence score'', i + 1) = Some []"
    using i lenA length_sortedPermutationResults[of rs] c1 assms(2)
    by (simp add: resultObj_lookup S rank_columns_def confidence_text_def)
  have c3: "\<forall>j<i. \<exists>v. score (?S ! j) = Number v \<and> v \<le> 0"
  proof (intro allI impI)
    fix j assume j: "j < i"
    then have jA: "j < length ?A" using i(1) by simp
    from scoredA[OF jA] obtain v where v: "score (?A ! j) = Number v" by blast
    with le[OF j] have "v \<le> 0" by simp
    with v nthS[OF jA] show "\<exists>v. score (?S ! j) = Number v \<and> v \<le> 0" by simp
  qed
  have c4: "(\<forall>x\<in>set rs. 0 \<le> score_number (score x)) \<longrightarrow> (\<forall>j<i. score (?S ! j) = Number 0)"
  proof (intro allI impI)
    fix j assume nn: "\<forall>x\<in>set rs. 0 \<le> score_number (score x)" and j: "j < i"
    then have jA: "j < length ?A" using i(1) by simp
    from c3 j obtain v where v: "score (?S ! j) = Number v" "v \<le> 0" by blast
    have "?A ! j \<in> set rs" using jA setA nth_mem[OF jA] by (auto simp: withConfidenceResults_def)
    with nn have "0 \<le> score_number (score (?A ! j))" by blast
    with v nthS[OF jA] show "score (?S ! j) = Number 0" by simp
  qed
  have c5: "\<forall>j<length rs. score (?S ! j) = Null \<or> score (?S ! j) = Undefined \<longrightarrow> i < j"
  proof (intro allI impI)
    fix j assume "j < length rs" and u: "score (?S ! j) = Null \<or> score (?S ! j) = Undefined"
    show "i < j"
    proof (rule ccontr)
      assume "\<not> i < j"
      then have jA: "j < length ?A" using i(1) by simp
      from scoredA[OF jA] nthS[OF jA] u show False by auto
    qed
  qed
  from i lenA c1 c2 c3 c4 c5 show ?thesis
    by (auto simp: confidence_text_def)
qed

theorem zero_score_ranked_but_blank_witness:
  "example_result ''Z'' (Number 0) \<in> set example_results
   \<and> score (example_result ''Z'' (Number 0)) = Number 0
   \<and> (\<exists>i<length (withConfidenceResults example_results).
         sortedPermutationResults example_results ! i = example_result ''Z'' (Number 0)
       \<and> resultObj plain_number example_results (''Confidence score'', i + 1) = Some [])"
proof -
  have h1: "example_result ''Z'' (Number 0) \<in> set example_results"
    by (simp add: example_results_def)
  have h2: "score (example_result ''Z'' (Number 0)) = Number 0"
    by (simp add: example_result_def)
  from zero_score_ranked_but_blank[OF h1 h2, of plain_number] h1 h2 show ?thesis by blast
qed

subsection \<open>Failed candidates\<close>

lemma rejecting_client_result:
  "calculateEmissions rejecting_client b args =
     (Some (Err ''Unprocessable''), [CreateTransactionEstimate (request_of args)])"
  by (simp add: calculateEmissions_def retry_loop.simps[of _ _ 0] rejecting_client_def MAX_RETRIES_def)

lemma rank_columns_failure:
  "rank_columns nts (pushed_result c (Err e)) =
     [(''Emissions (tCO2e)'', []),
      (''Emission factor name'', ''Error: '' @ e),
      (''Emission factor source'', []),
      (''Emission factor intensity'', []),
      (''Emission factor intensity unit'', ''CO2e/''),
      (''Emission factor original unit'', ''CO2e/''),
      (''Exchange rate'', []),
      (''Confidence score'', []),
      (''Dashboard URL'', []),
      (''Search term used'', []),
      (''Category used'', [])]"
  by (simp add: rank_columns_def pushed_result_def confidence_text_def)

text \<open>
  Claim C7 says that the entry of a failed candidate still carries its search term and its
  category. It does not: for the candidate (\<open>Coffee\<close>, \<open>Food\<close>) rejected by the service, the
  columns \<open>Search term used (1)\<close> and \<open>Category used (1)\<close> are empty.
\<close>

theorem failure_entry_counterexample:
  "fn rejecting_client plain_number ''1000'' ''USD'' ''USA'' example_candidate =
     Some (pushed_result example_candidate (Err ''Unprocessable''))
   \<and> searchTerm example_candidate = ''Coffee''
   \<and> category example_candidate = Some ''Food''
   \<and> resultObj plain_number [pushed_result example_candidate (Err ''Unprocessable'')]
        (''Search term used'', 1) \<noteq> Some ''Coffee''
   \<and> resultObj plain_number [pushed_result example_candidate (Err ''Unprocessable'')]
        (''Category used'', 1) \<noteq> Some ''Food''"
proof -
  have "sortedPermutationResults [pushed_result example_candidate (Err ''Unprocessable'')] =
          [pushed_result example_candidate (Err ''Unprocessable'')]"
    by (simp add: sortedPermutationResults_def withConfidenceResults_def noConfidenceResults_def
        pushed_result_def)
  then show ?thesis
    by (simp add: fn_def rejecting_client_result resultObj_lookup rank_columns_failure
        example_candidate_def)
qed

text \<open>
  Claim C7, amended. When \<open>calculateEmissions\<close> returns \<open>Err e\<close> for a candidate, the task
  pushes a result with the score \<open>null\<close> whose columns are all empty, but for the factor name,
  which is \<open>Error: \<close> followed by \<open>e\<close>, and the two unit columns, which are \<open>CO2e/\<close>; the
  columns \<open>Search term used\<close> and \<open>Category used\<close> are empty too. In the merged output the
  result is ranked after all scored ones and its columns are these.
\<close>

theorem failure_entry_blank:
  assumes "fst (calculateEmissions luneClient bigToString
                  \<lparr>arg_searchTerm = searchTerm c, arg_category = category c, arg_amount = amount,
                   arg_currency = currency, arg_countryCode = countryCode\<rparr>) = Some (Err e)"
  shows "fn luneClient bigToString amount currency countryCode c = Some (pushed_result c (Err e))
       \<and> score (pushed_result c (Err e)) = Null
       \<and> rank_columns numberToString (pushed_result c (Err e)) =
           [(''Emissions (tCO2e)'', []),
            (''Emission factor name'', ''Error: '' @ e),
            (''Emission factor source'', []),
            (''Emission factor intensity'', []),
            (''Emission factor intensity unit'', ''CO2e/''),
            (''Emission factor original unit'', ''CO2e/''),
            (''Exchange rate'', []),
            (''Confidence score'', []),
            (''Dashboard URL'', []),
            (''Search term used'', []),
            (''Category used'', [])]
       \<and> (\<forall>rs i. i < length rs \<and> sortedPermutationResults rs ! i = pushed_result c (Err e) \<longrightarrow>
             length (withConfidenceResults rs) \<le> i
             \<and> (\<forall>column. resultObj numberToString rs (column, i + 1) =
                   map_of (rank_columns numberToString (pushed_result c (Err e))) column))"
proof (intro conjI allI impI)
  show "fn luneClient bigToString amount currency countryCode c = Some (pushed_result c (Err e))"
    using assms by (simp add: fn_def)
  show null: "score (pushed_result c (Err e)) = Null" by (simp add: pushed_result_def)
  show "rank_columns numberToString (pushed_result c (Err e)) =
           [(''Emissions (tCO2e)'', []),
            (''Emission factor name'', ''Error: '' @ e),
            (''Emission factor source'', []),
            (''Emission factor intensity'', []),
            (''Emission factor intensity unit'', ''CO2e/''),
            (''Emission factor original unit'', ''CO2e/''),
            (''Exchange rate'', []),
            (''Confidence score'', []),
            (''Dashboard URL'', []),
            (''Search term used'', []),
            (''Category used'', [])]"
    by (rule rank_columns_failure)
next
  fix rs i column
  assume a: "i < length rs \<and> sortedPermutationResults rs ! i = pushed_result c (Err e)"
  let ?A = "array_sort compareFn (withConfidenceResults rs)"
  show "length (withConfidenceResults rs) \<le> i"
  proof (rule ccontr)
    assume "\<not> length (withConfidenceResults rs) \<le> i"
    then have iA: "i < length ?A" by (simp add: length_array_sort)
    then have "sortedPermutationResults rs ! i = ?A ! i"
      by (simp add: sortedPermutationResults_def nth_append)
    moreover have "?A ! i \<in> set (withConfidenceResults rs)"
      using nth_mem[OF iA] by (simp add: set_array_sort)
    ultimately have "\<exists>v. score (pushed_result c (Err e)) = Number v"
      using a with_confidence_scored by metis
    then show False by (simp add: pushed_result_def)
  qed
  show "resultObj numberToString rs (column, i + 1) =
          map_of (rank_columns numberToString (pushed_result c (Err e))) column"
    using a by (simp add: resultObj_lookup length_sortedPermutationResults)
qed

theorem failure_entry_blank_witness:
  "fst (calculateEmissions rejecting_client plain_number
          \<lparr>arg_searchTerm = searchTerm example_candidate, arg_category = category example_candidate,
           arg_amount = ''1000'', arg_currency = ''USD'', arg_countryCode = ''USA''\<rparr>)
     = Some (Err ''Unprocessable'')
   \<and> fn rejecting_client plain_number ''1000'' ''USD'' ''USA'' example_candidate =
       Some (pushed_result example_candidate (Err ''Unprocessable''))
   \<and> map_of (rank_columns plain_number (pushed_result example_candidate (Err ''Unprocessable'')))
        ''Emission factor name'' = Some ''Error: Unprocessable''"
proof -
  have h: "fst (calculateEmissions rejecting_client plain_number
          \<lparr>arg_searchTerm = searchTerm example_candidate, arg_category = category example_candidate,
           arg_amount = ''1000'', arg_currency = ''USD'', arg_countryCode = ''USA''\<rparr>)
     = Some (Err ''Unprocessable'')"
    by (simp add: rejecting_client_result)
  from failure_entry_blank[OF h, of plain_number] h show ?thesis by simp
qed

subsection \<open>One result per candidate\<close>

lemma retry_loop_never_undefined:
  "retryCount < MAX_RETRIES \<Longrightarrow> fst (retry_loop luneClient request retryCount trace) \<noteq> Result None"
proof (induction luneClient request retryCount trace rule: retry_loop.induct)
  case (1 luneClient request retryCount trace)
  show ?case
  proof (cases "luneClient request retryCount")
    case (Inr res)
    with "1.prems" show ?thesis by (subst retry_loop.simps) simp
  next
    case (Inl error)
    show ?thesis
    proof (cases "statusCode error \<noteq> None \<or> \<not> retryCount < MAX_RETRIES - 1")
      case True
      with Inl "1.prems" show ?thesis by (subst retry_loop.simps) auto
    next
      case False
      then have "retryCount + 1 < MAX_RETRIES" by linarith
      with "1.IH"[OF "1.prems" Inl] False
      have "fst (retry_loop luneClient request (retryCount + 1)
                  (trace @ [CreateTransactionEstimate request, SleepMs 500])) \<noteq> Result None"
        by simp
      with Inl False "1.prems" show ?thesis by (subst retry_loop.simps) simp
    qed
  qed
qed

lemma calculateEmissions_returns: "\<exists>result. fst (calculateEmissions luneClient b args) = Some result"
proof -
  have "fst (retry_loop luneClient (request_of args) 0 []) \<noteq> Result None"
    by (rule retry_loop_never_undefined) (simp add: MAX_RETRIES_def)
  then show ?thesis
    by (cases "retry_loop luneClient (request_of args) 0 []")
       (auto simp: calculateEmissions_def split: loop_exit.splits option.splits)
qed

lemma fn_returns:
  "\<exists>result. fn luneClient b amount currency countryCode c = Some (pushed_result c result)"
proof -
  obtain result where "fst (calculateEmissions luneClient b
      \<lparr>arg_searchTerm = searchTerm c, arg_category = category c, arg_amount = amount,
       arg_currency = currency, arg_countryCode = countryCode\<rparr>) = Some result"
    using calculateEmissions_returns by blast
  then have "fn luneClient b amount currency countryCode c = Some (pushed_result c result)"
    by (simp add: fn_def)
  then show ?thesis by blast
qed

lemma those_map_Some: "(\<And>x. x \<in> set xs \<Longrightarrow> f x = Some (g x)) \<Longrightarrow> those (map f xs) = Some (map g xs)"
  by (induction xs) simp_all

lemma mset_completion_order: "mset (completion_order finish xs) = mset xs"
proof -
  have "mset (completion_order finish xs) =
          image_mset snd (mset (sort_key (\<lambda>(j, x). finish j) (zip [0..<length xs] xs)))"
    by (simp add: completion_order_def)
  also have "\<dots> = image_mset snd (mset (zip [0..<length xs] xs))" by simp
  also have "\<dots> = mset (map snd (zip [0..<length xs] xs))" by (simp only: mset_map)
  also have "\<dots> = mset xs" by (simp only: map_snd_zip length_upt diff_zero)
  finally show ?thesis .
qed

lemma map_fst_rank_columns: "map fst (rank_columns nts r) = column_names"
  by (simp add: rank_columns_def column_names_def)

lemma dom_resultObj: "dom (resultObj nts rs) = set column_names \<times> {1..length rs}"
proof -
  have *: "(c, j) \<in> dom (resultObj nts rs) \<longleftrightarrow> c \<in> set column_names \<and> 1 \<le> j \<and> j \<le> length rs" for c j
  proof -
    have "map_of (rank_columns nts r) c \<noteq> None \<longleftrightarrow> c \<in> set column_names" for r
      using map_fst_rank_columns[of nts r] by (metis map_of_eq_None_iff set_map)
    then show ?thesis
      by (auto simp: resultObj_lookup length_sortedPermutationResults dom_def)
  qed
  show ?thesis
  proof (rule set_eqI)
    fix x :: "string \<times> nat"
    obtain c j where x: "x = (c, j)" by (cases x)
    show "x \<in> dom (resultObj nts rs) \<longleftrightarrow> x \<in> set column_names \<times> {1..length rs}"
      unfolding x using * [of c j] by simp
  qed
qed

text \<open>
  Claim C8. For the candidates of a row, \<open>await Promise.all\<close> always completes: no task
  raises, and each candidate \<open>j\<close> has exactly one outcome, the value \<open>outcomes ! j\<close> returned
  by its own call of \<open>calculateEmissions\<close>. \<open>permutationsResults\<close> then holds exactly one
  result for each candidate, the one pushed for that candidate and that outcome, in the
  order in which the tasks finish. The keys of the merged output are the eleven column
  names at exactly the ranks \<open>1, \<dots>, N\<close>, \<open>N\<close> being the number of candidates.
\<close>

theorem one_result_per_candidate:
  "\<exists>outcomes rs.
     length outcomes = length searchPermutations
     \<and> (\<forall>j<length searchPermutations.
           fst (calculateEmissions (createTransactionEstimate w i j) (Big_toString w)
                  \<lparr>arg_searchTerm = searchTerm (searchPermutations ! j),
                   arg_category = category (searchPermutations ! j),
                   arg_amount = amount,
                   arg_currency = currency,
                   arg_countryCode = countryCode\<rparr>) = Some (outcomes ! j))
     \<and> permutationsResults w i amount currency countryCode searchPermutations = Some rs
     \<and> rs = completion_order (finishTime w i)
                (map (\<lambda>(c, result). pushed_result c result) (zip searchPermutations outcomes))
     \<and> mset rs = mset (map (\<lambda>(c, result). pushed_result c result) (zip searchPermutations outcomes))
     \<and> length rs = length searchPermutations
     \<and> dom (resultObj numberToString rs) = set column_names \<times> {1..length searchPermutations}"
proof -
  let ?args = "\<lambda>c. \<lparr>arg_searchTerm = searchTerm c, arg_category = category c, arg_amount = amount,
                     arg_currency = currency, arg_countryCode = countryCode\<rparr>"
  let ?calc = "\<lambda>j c. fst (calculateEmissions (createTransactionEstimate w i j) (Big_toString w) (?args c))"
  let ?task = "\<lambda>(j, c). fn (createTransactionEstimate w i j) (Big_toString w) amount currency countryCode c"
  let ?idx = "zip [0..<length searchPermutations] searchPermutations"
  let ?g = "\<lambda>(j, c). the (?calc j c)"
  have calc: "?calc j c = Some (?g (j, c))" for j c
    using calculateEmissions_returns[of "createTransactionEstimate w i j" "Big_toString w" "?args c"]
    by auto
  have g: "?task jc = Some (pushed_result (snd jc) (?g jc))" for jc
  proof -
    obtain j c where jc: "jc = (j, c)" by (cases jc)
    obtain r where r: "?calc j c = Some r"
      using calculateEmissions_returns[of "createTransactionEstimate w i j" "Big_toString w" "?args c"]
      by blast
    then show ?thesis unfolding jc by (simp add: fn_def)
  qed
  let ?outcomes = "map ?g ?idx"
  let ?pushed = "map (\<lambda>jc. pushed_result (snd jc) (?g jc)) ?idx"
  have those: "those (map ?task ?idx) = Some ?pushed"
    by (rule those_map_Some) (rule g)
  have pr: "permutationsResults w i amount currency countryCode searchPermutations =
          Some (completion_order (finishTime w i) ?pushed)"
    by (simp add: permutationsResults_def those)
  have eq: "?pushed = map (\<lambda>(c, result). pushed_result c result) (zip searchPermutations ?outcomes)"
    by (rule nth_equalityI) simp_all
  let ?rs = "completion_order (finishTime w i) ?pushed"
  have lo: "length ?outcomes = length searchPermutations" by simp
  have tied: "\<forall>j<length searchPermutations. ?calc j (searchPermutations ! j) = Some (?outcomes ! j)"
  proof (intro allI impI)
    fix j assume "j < length searchPermutations"
    then have "?outcomes ! j = ?g (j, searchPermutations ! j)" by simp
    with calc[of j "searchPermutations ! j"] show "?calc j (searchPermutations ! j) = Some (?outcomes ! j)"
      by simp
  qed
  have m: "mset ?rs = mset ?pushed" by (rule mset_completion_order)
  then have len: "length ?rs = length searchPermutations"
    by (metis (no_types, lifting) size_mset length_map length_zip length_upt min.idem diff_zero)
  have d: "dom (resultObj numberToString ?rs) = set column_names \<times> {1..length searchPermutations}"
    by (simp add: dom_resultObj len)
  show ?thesis
  proof (intro exI[of _ ?outcomes] exI[of _ ?rs] conjI)
    show "length ?outcomes = length searchPermutations" by (rule lo)
    show "\<forall>j<length searchPermutations. ?calc j (searchPermutations ! j) = Some (?outcomes ! j)"
      by (rule tied)
    show "permutationsResults w i amount currency countryCode searchPermutations = Some ?rs" by (rule pr)
    show "?rs = completion_order (finishTime w i)
                (map (\<lambda>(c, result). pushed_result c result) (zip searchPermutations ?outcomes))"
      by (simp only: eq)
    show "mset ?rs = mset (map (\<lambda>(c, result). pushed_result c result) (zip searchPermutations ?outcomes))"
      using m by (simp only: eq)
    show "length ?rs = length searchPermutations" by (rule len)
    show "dom (resultObj numberToString ?rs) = set column_names \<times> {1..length searchPermutations}"
      by (rule d)
  qed
qed

theorem one_result_per_candidate_witness:
  "fst (calculateEmissions (createTransactionEstimate example_world 0 0) (Big_toString example_world)
          \<lparr>arg_searchTerm = searchTerm (example_candidates ! 0), arg_category = category (example_candidates ! 0),
           arg_amount = ''1000'', arg_currency = ''USD'', arg_countryCode = ''USA''\<rparr>)
     = Some (Err ''Unprocessable'')
   \<and> fst (calculateEmissions (createTransactionEstimate example_world 0 1) (Big_toString example_world)
          \<lparr>arg_searchTerm = searchTerm (example_candidates ! 1), arg_category = category (example_candidates ! 1),
           arg_amount = ''1000'', arg_currency = ''USD'', arg_countryCode = ''USA''\<rparr>)
     = Some (Err ''Unprocessable'')
   \<and> permutationsResults example_world 0 ''1000'' ''USD'' ''USA'' example_candidates =
       Some [pushed_result example_candidate (Err ''Unprocessable''),
             pushed_result \<lparr>searchTerm = ''Tea'', category = None\<rparr> (Err ''Unprocessable'')]"
proof -
  have c: "fst (calculateEmissions (createTransactionEstimate example_world 0 j) (Big_toString example_world) args)
             = Some (Err ''Unprocessable'')" for j args
    by (simp add: example_world_def rejecting_client_result)
  obtain outcomes rs where len: "length outcomes = length example_candidates"
    and tied: "\<forall>j<length example_candidates.
           fst (calculateEmissions (createTransactionEstimate example_world 0 j) (Big_toString example_world)
                  \<lparr>arg_searchTerm = searchTerm (example_candidates ! j),
                   arg_category = category (example_candidates ! j),
                   arg_amount = ''1000'', arg_currency = ''USD'', arg_countryCode = ''USA''\<rparr>)
             = Some (outcomes ! j)"
    and pr: "permutationsResults example_world 0 ''1000'' ''USD'' ''USA'' example_candidates = Some rs"
    and rs: "rs = completion_order (finishTime example_world 0)
                (map (\<lambda>(c, result). pushed_result c result) (zip example_candidates outcomes))"
    using one_result_per_candidate[of example_candidates example_world 0 "''1000''" "''USD''" "''USA''"
        plain_number]
    by blast
  have l2: "length outcomes = 2" using len by (simp add: example_candidates_def)
  have "outcomes ! j = Err ''Unprocessable''" if "j < 2" for j
  proof -
    from that have "j < length example_candidates" by (simp add: example_candidates_def)
    with tied have "fst (calculateEmissions (createTransactionEstimate example_world 0 j) (Big_toString example_world)
                  \<lparr>arg_searchTerm = searchTerm (example_candidates ! j),
                   arg_category = category (example_candidates ! j),
                   arg_amount = ''1000'', arg_currency = ''USD'', arg_countryCode = ''USA''\<rparr>)
             = Some (outcomes ! j)" by blast
    then show ?thesis by (simp add: c)
  qed
  then have o0: "outcomes ! 0 = Err ''Unprocessable''" and o1: "outcomes ! 1 = Err ''Unprocessable''"
    by simp_all
  have "outcomes = [Err ''Unprocessable'', Err ''Unprocessable'']"
    using l2 o0 o1 by (intro nth_equalityI) (auto simp: less_Suc_eq numeral_2_eq_2)
  with rs have "rs = [pushed_result example_candidate (Err ''Unprocessable''),
             pushed_result \<lparr>searchTerm = ''Tea'', category = None\<rparr> (Err ''Unprocessable'')]"
    by (simp add: completion_order_def example_candidates_def example_world_def)
  with pr c show ?thesis by simp
qed

subsection \<open>Loading an input without data rows\<close>

text \<open>
  Claim C10. When the input file is read and parsed successfully and the parser returns no
  record (a header and nothing else), \<open>loadCsv\<close> returns the error \<open>The array is empty\<close>,
  whatever columns are expected, and \<open>main\<close> exits with status 1 and that error without
  entering its loop: no row is processed and no file is written.
\<close>

theorem header_only_csv_aborts:
  assumes "readFile w filename = Ok buffer" and "parseCsv w buffer = Ok []"
  shows "loadCsv w filename expected = Err ''The array is empty''
       \<and> main w cfg filename = Exit 1 ''The array is empty''"
proof -
  have "loadCsv w filename expected = Err ''The array is empty''" for expected
    using assms by (simp add: loadCsv_def readFileChecked_def parseCsvChecked_def passArray_def)
  then show ?thesis by (simp add: main_def)
qed

theorem header_only_csv_aborts_witness:
  "readFile example_world ''template.csv'' = Ok ''Category Level 3,Sum of Spend,Currency,Country''
   \<and> parseCsv example_world ''Category Level 3,Sum of Spend,Currency,Country'' = Ok []
   \<and> loadCsv example_world ''template.csv''
        [''Category Level 3'', ''Sum of Spend'', ''Currency'', ''Country''] = Err ''The array is empty''
   \<and> main example_world example_config ''template.csv'' = Exit 1 ''The array is empty''"
proof -
  have h1: "readFile example_world ''template.csv'' = Ok ''Category Level 3,Sum of Spend,Currency,Country''"
    by (simp add: example_world_def)
  have h2: "parseCsv example_world ''Category Level 3,Sum of Spend,Currency,Country'' = Ok []"
    by (simp add: example_world_def)
  from header_only_csv_aborts[OF h1 h2] h1 h2 show ?thesis by simp
qed

subsection \<open>Chunked output writer\<close>

lemma permutationsResults_completes:
  "\<exists>rs. permutationsResults w i amount currency countryCode cands = Some rs"
proof -
  let ?task = "\<lambda>(j, c). fn (createTransactionEstimate w i j) (Big_toString w) amount currency countryCode c"
  have "\<exists>ys. those (map ?task xs) = Some ys" for xs
  proof (induction xs)
    case Nil
    then show ?case by simp
  next
    case (Cons x xs)
    obtain j c where x: "x = (j, c)" by (cases x)
    obtain r where "?task x = Some r" using fn_returns[of "createTransactionEstimate w i j"] x by fastforce
    with Cons show ?case by auto
  qed
  then show ?thesis by (auto simp: permutationsResults_def)
qed

lemma process_row_completes:
  assumes "fields_trim row (searchTermColumnsArr cfg) = Some searchTerms"
    and "categories_of row (categoryColumnsArr cfg) = Some categories"
    and "amount_of row (monetaryAmountColumn cfg) = Some amount"
    and "field_trim row (currencyColumn cfg) = Some currency"
    and "field_trim row (countryCodeColumn cfg) = Some countryCode"
  shows "\<exists>r. process_row w cfg i row = Some r"
proof -
  obtain rs where "permutationsResults w i amount currency countryCode
      (searchCategoryPermutations searchTerms categories) = Some rs"
    using permutationsResults_completes by blast
  with assms show ?thesis by (simp add: process_row_def)
qed

lemma main_loop_two_rows_limit_one:
  assumes "process 0 a = Some x" and "process 1 b = Some y"
  shows "main_loop process 1 [a, b] 0 [] [] = ([(Finite 1, [x, y])], True)"
  using assms
  by (simp add: main_loop.simps[of _ _ _ 0] main_loop.simps[of _ _ _ "Suc 0"] main_loop.simps[of _ _ _ "Suc (Suc 0)"]
      remainder_def math_ceil_quotient_def math_floor_quotient_def)

lemma take_drop_snoc:
  assumes "a + n < length xs"
  shows "take n (drop a xs) @ [xs ! (a + n)] = take (Suc n) (drop a xs)"
  using assms by (simp add: take_Suc_conv_app_nth)

lemma main_loop_done:
  "length rows \<le> i \<Longrightarrow> main_loop process C rows i out files = (files, True)"
  by (subst main_loop.simps) simp

lemma main_loop_chunks:
  assumes C: "2 \<le> C" and len: "length outs = length rows"
    and ok: "\<forall>k<length rows. process k (rows ! k) = Some (outs ! k)"
    and i: "i < length rows"
  shows "main_loop process C rows i
           (take (i mod C) (drop (i - i mod C) outs))
           (map (\<lambda>q. (Finite q, take C (drop (q * C) outs))) [0..<i div C]) =
         (map (\<lambda>q. (Finite q, take C (drop (q * C) outs))) [0..<(length rows - 1) div C]
            @ [(math_ceil_quotient (length rows - 1) C, drop ((length rows - 1) div C * C) outs)], True)"
  using i
proof (induction "length rows - 1 - i" arbitrary: i)
  case 0
  then have iR: "i = length rows - 1" by simp
  have p: "process i (rows ! i) = Some (outs ! i)" using ok "0.prems" by simp
  have "i - i mod C + i mod C < length outs" using "0.prems" len by simp
  from take_drop_snoc[OF this]
  have snoc: "take (i mod C) (drop (i - i mod C) outs) @ [outs ! i] =
          take (Suc (i mod C)) (drop (i - i mod C) outs)" by simp
  have "length outs = Suc i" using iR len "0.prems" by simp
  moreover have "i mod C \<le> i" by (rule mod_less_eq_dividend)
  ultimately have "length (drop (i - i mod C) outs) = Suc (i mod C)"
    by simp
  then have whole: "take (Suc (i mod C)) (drop (i - i mod C) outs) = drop (i - i mod C) outs"
    by simp
  have dm: "i div C * C = i - i mod C" by (simp add: minus_mod_eq_div_mult)
  have "main_loop process C rows i
           (take (i mod C) (drop (i - i mod C) outs))
           (map (\<lambda>q. (Finite q, take C (drop (q * C) outs))) [0..<i div C]) =
        main_loop process C rows (Suc i) []
           (map (\<lambda>q. (Finite q, take C (drop (q * C) outs))) [0..<i div C]
              @ [(math_ceil_quotient i C, take (Suc (i mod C)) (drop (i - i mod C) outs))])"
    using p "0.prems" iR snoc
    by (subst main_loop.simps) (simp del: main_loop.simps)
  also have "\<dots> = (map (\<lambda>q. (Finite q, take C (drop (q * C) outs))) [0..<i div C]
              @ [(math_ceil_quotient i C, take (Suc (i mod C)) (drop (i - i mod C) outs))], True)"
    using iR "0.prems" by (intro main_loop_done) simp
  finally show ?case
    by (simp only: whole dm flip: iR)
next
  case (Suc n)
  then have iR: "i < length rows - 1" and i1: "Suc i < length rows" by simp_all
  have p: "process i (rows ! i) = Some (outs ! i)" using ok Suc.prems by simp
  have "i - i mod C + i mod C < length outs" using Suc.prems len by simp
  from take_drop_snoc[OF this]
  have snoc: "take (i mod C) (drop (i - i mod C) outs) @ [outs ! i] =
          take (Suc (i mod C)) (drop (i - i mod C) outs)" by simp
  have n: "n = length rows - 1 - Suc i" using Suc.hyps(2) by simp
  note IH = Suc.hyps(1)[OF n i1]
  have C0: "C \<noteq> 0" using C by simp
  show ?case
  proof (cases "Suc i mod C = 0")
    case True
    then have full: "Suc (i mod C) = C" using C0 by (metis mod_Suc nat.distinct(1))
    have i0: "i \<noteq> 0" using True C by (cases i) auto
    have dv: "Suc i div C = Suc (i div C)" using True by (simp add: div_Suc)
    have dm: "i - i mod C = i div C * C" by (simp add: minus_mod_eq_div_mult)
    have files: "map (\<lambda>q. (Finite q, take C (drop (q * C) outs))) [0..<i div C]
                   @ [(Finite (i div C), take (Suc (i mod C)) (drop (i - i mod C) outs))] =
                 map (\<lambda>q. (Finite q, take C (drop (q * C) outs))) [0..<Suc i div C]"
      by (simp add: dv full dm)
    have "main_loop process C rows i
           (take (i mod C) (drop (i - i mod C) outs))
           (map (\<lambda>q. (Finite q, take C (drop (q * C) outs))) [0..<i div C]) =
          main_loop process C rows (Suc i) []
           (map (\<lambda>q. (Finite q, take C (drop (q * C) outs))) [0..<i div C]
                   @ [(Finite (i div C), take (Suc (i mod C)) (drop (i - i mod C) outs))])"
      using p Suc.prems iR True i0 C0 snoc
      by (subst main_loop.simps) (simp add: remainder_def math_floor_quotient_def del: main_loop.simps)
    also have "\<dots> = main_loop process C rows (Suc i)
           (take (Suc i mod C) (drop (Suc i - Suc i mod C) outs))
           (map (\<lambda>q. (Finite q, take C (drop (q * C) outs))) [0..<Suc i div C])"
      by (simp only: files True take_0)
    also have "\<dots> = (map (\<lambda>q. (Finite q, take C (drop (q * C) outs))) [0..<(length rows - 1) div C]
            @ [(math_ceil_quotient (length rows - 1) C, drop ((length rows - 1) div C * C) outs)], True)"
      by (rule IH)
    finally show ?thesis .
  next
    case False
    then have md: "Suc i mod C = Suc (i mod C)" by (simp add: mod_Suc split: if_splits)
    have dv: "Suc i div C = i div C" using False by (simp add: div_Suc)
    have sub: "Suc i - Suc i mod C = i - i mod C" using md by simp
    have "main_loop process C rows i
           (take (i mod C) (drop (i - i mod C) outs))
           (map (\<lambda>q. (Finite q, take C (drop (q * C) outs))) [0..<i div C]) =
          main_loop process C rows (Suc i)
           (take (Suc (i mod C)) (drop (i - i mod C) outs))
           (map (\<lambda>q. (Finite q, take C (drop (q * C) outs))) [0..<i div C])"
      using p Suc.prems iR False C0 snoc
      by (subst main_loop.simps) (simp add: remainder_def del: main_loop.simps)
    also have "\<dots> = main_loop process C rows (Suc i)
           (take (Suc i mod C) (drop (Suc i - Suc i mod C) outs))
           (map (\<lambda>q. (Finite q, take C (drop (q * C) outs))) [0..<Suc i div C])"
      by (simp only: md dv diff_Suc_Suc)
    also have "\<dots> = (map (\<lambda>q. (Finite q, take C (drop (q * C) outs))) [0..<(length rows - 1) div C]
            @ [(math_ceil_quotient (length rows - 1) C, drop ((length rows - 1) div C * C) outs)], True)"
      by (rule IH)
    finally show ?thesis .
  qed
qed

lemma concat_full_chunks:
  "m * C \<le> length outs \<Longrightarrow>
   concat (map (\<lambda>q. take C (drop (q * C) outs)) [0..<m]) = take (m * C) outs"
proof (induction m)
  case 0
  then show ?case by simp
next
  case (Suc m)
  then have "concat (map (\<lambda>q. take C (drop (q * C) outs)) [0..<m]) = take (m * C) outs" by simp
  then have "concat (map (\<lambda>q. take C (drop (q * C) outs)) [0..<Suc m]) =
               take (m * C) outs @ take C (drop (m * C) outs)" by simp
  also have "\<dots> = take (m * C + C) outs" by (simp add: take_add)
  finally show ?case by (simp add: add.commute)
qed

text \<open>
  For a row limit \<open>C\<close> of at least 2 and at least one row the writer does what claim C3
  says: when no row raises, the loop runs to its end and writes \<open>ceil(R / C)\<close> files, each but
  possibly the last with \<open>C\<close> rows, with increasing suffixes, and their rows in order are the
  rows emitted.
\<close>

lemma chunks_when_limit_at_least_two:
  assumes C: "2 \<le> C" and R: "1 \<le> length rows" and len: "length outs = length rows"
    and ok: "\<forall>k<length rows. process k (rows ! k) = Some (outs ! k)"
  shows "\<exists>files ns.
           main_loop process C rows 0 [] [] = (files, True)
         \<and> length files = (length rows + C - 1) div C
         \<and> (\<forall>k. Suc k < length files \<longrightarrow> length (snd (files ! k)) = C)
         \<and> concat (map snd files) = outs
         \<and> map fst files = map Finite ns \<and> sorted_wrt (<) ns"
proof -
  let ?m = "(length rows - 1) div C"
  let ?c = "if (length rows - 1) mod C = 0 then ?m else ?m + 1"
  let ?F = "map (\<lambda>q. (Finite q, take C (drop (q * C) outs))) [0..<?m]"
  let ?files = "?F @ [(math_ceil_quotient (length rows - 1) C, drop (?m * C) outs)]"
  have C0: "C \<noteq> 0" using C by simp
  have run: "main_loop process C rows 0 [] [] = (?files, True)"
  proof -
    have "0 < length rows" using R by linarith
    from main_loop_chunks[where process = process and C = C and rows = rows and outs = outs and i = 0,
        OF C len ok this]
    show ?thesis by (simp del: main_loop.simps)
  qed
  have mC: "?m * C \<le> length rows - 1" by simp
  have l: "length ?files = (length rows + C - 1) div C"
  proof -
    have "length rows + C - 1 = (length rows - 1) + C" using R by simp
    then have "(length rows + C - 1) div C = ((length rows - 1) + C) div C" by (rule arg_cong)
    also have "\<dots> = Suc ?m" using C0 by simp
    finally show ?thesis by simp
  qed
  have full: "\<forall>k. Suc k < length ?files \<longrightarrow> length (snd (?files ! k)) = C"
  proof (intro allI impI)
    fix k assume "Suc k < length ?files"
    then have k: "k < ?m" by simp
    then have sk: "Suc k * C \<le> ?m * C" by (intro mult_le_mono1) simp
    have "k * C + C = Suc k * C" by simp
    also note sk
    also note mC
    also have "length rows - 1 < length rows" using R by simp
    finally have "k * C + C < length rows" .
    then have "length (take C (drop (k * C) outs)) = C" using len by simp
    with k show "length (snd (?files ! k)) = C" by (simp add: nth_append)
  qed
  have cc: "concat (map snd ?files) = outs"
  proof -
    have "map snd ?F = map (\<lambda>q. take C (drop (q * C) outs)) [0..<?m]" by simp
    moreover have "?m * C \<le> length outs"
    proof -
      note mC
      also have "length rows - 1 \<le> length outs" using len by simp
      finally show ?thesis .
    qed
    ultimately have "concat (map snd ?F) = take (?m * C) outs"
      using concat_full_chunks by metis
    then show ?thesis by simp
  qed
  have ns: "map fst ?files = map Finite ([0..<?m] @ [?c])"
    using C0 by (simp add: math_ceil_quotient_def comp_def)
  have "sorted_wrt (<) ([0..<?m] @ [?c])"
    by (auto simp: sorted_wrt_append)
  with run l full cc ns show ?thesis by blast
qed

text \<open>
  Claim C3 at the row limit 1 with two rows. The claim asks for two chunk files of one row
  each; the loop writes a single file, with the suffix 1, that holds both rows: at \<open>i = 0\<close>
  the guard \<open>i !== 0\<close> keeps the first row in the buffer although the limit is reached. The
  first statement is for any row processor that does not raise, the second for \<open>main\<close> on
  an input of two records.
\<close>

theorem limit_one_two_rows:
  "main_loop (\<lambda>i row. Some (f i row)) 1 [a, b] 0 [] [] = ([(Finite 1, [f 0 a, f 1 b])], True)
   \<and> (\<exists>x y. main two_row_world (example_config\<lparr>outputFileRows := 1\<rparr>) ''template.csv'' =
          Ran [(Finite 1, [x, y])] True)"
proof
  show "main_loop (\<lambda>i row. Some (f i row)) 1 [a, b] 0 [] [] = ([(Finite 1, [f 0 a, f 1 b])], True)"
    by (rule main_loop_two_rows_limit_one) simp_all
next
  let ?cfg = "example_config\<lparr>outputFileRows := 1\<rparr>"
  have load: "loadCsv two_row_world ''template.csv''
                (searchTermColumnsArr ?cfg @ [monetaryAmountColumn ?cfg, currencyColumn ?cfg, countryCodeColumn ?cfg]
                   @ categoryColumnsArr ?cfg) = Ok [example_row, example_row]"
    by (simp add: loadCsv_def readFileChecked_def parseCsvChecked_def passArray_def passStringRecord_def
        two_row_world_def example_world_def example_config_def example_row_def)
  have row: "\<exists>r. process_row two_row_world ?cfg i example_row = Some r" for i
    by (rule process_row_completes[where searchTerms = "[''Coffee'']" and categories = "[None]"
          and amount = "''1000''" and currency = "''USD''" and countryCode = "''USA''"])
       (simp_all add: example_config_def example_row_def field_trim_def amount_of_def categories_of_def
          trim_def isWhiteSpace_def)
  obtain x y where "process_row two_row_world ?cfg 0 example_row = Some x"
    and "process_row two_row_world ?cfg 1 example_row = Some y"
    using row by blast
  then have "main_loop (process_row two_row_world ?cfg) 1 [example_row, example_row] 0 [] [] =
               ([(Finite 1, [x, y])], True)"
    by (rule main_loop_two_rows_limit_one)
  with load have "main two_row_world ?cfg ''template.csv'' = Ran [(Finite 1, [x, y])] True"
    by (simp add: main_def example_config_def)
  then show "\<exists>x y. main two_row_world ?cfg ''template.csv'' = Ran [(Finite 1, [x, y])] True"
    by blast
qed

end
